theory Spec2Isabelle
  imports Complex_Main "HOL-Library.Sublist"
begin

section \<open>Values decoded from JSON\<close>

text \<open>
  The evaluation script \<^verbatim>\<open>src/utils/eval.py\<close> works on whatever \<^verbatim>\<open>json.load\<close>
  returns: \<^verbatim>\<open>None\<close>, \<^verbatim>\<open>bool\<close>, \<^verbatim>\<open>int\<close>, \<^verbatim>\<open>float\<close>, \<^verbatim>\<open>str\<close>, \<^verbatim>\<open>list\<close> and \<^verbatim>\<open>dict\<close>.
  A \<^verbatim>\<open>dict\<close> is kept as the list of its items in insertion order (its keys are distinct),
  a \<^verbatim>\<open>float\<close> as the rational it denotes (the non-standard constants \<^verbatim>\<open>NaN\<close> and
  \<^verbatim>\<open>Infinity\<close> are not part of the model), and a \<^verbatim>\<open>str\<close> as a \<^typ>\<open>string\<close> whose
  characters are the code points 0 to 255.
\<close>

datatype json =
    JNull
  | JBool bool
  | JInt int
  | JFloat rat
  | JStr string
  | JArr "json list"
  | JObj "(string \<times> json) list"

text \<open>The exceptions the script can raise on decoded values.\<close>

datatype error = AttributeError | TypeError

subsection \<open>Python operations on decoded values\<close>

text \<open>\<^verbatim>\<open>d.get(key, default)\<close>; any value that is not a \<^verbatim>\<open>dict\<close> has no attribute \<^verbatim>\<open>get\<close>.\<close>

fun dict_get :: "json \<Rightarrow> string \<Rightarrow> json \<Rightarrow> error + json" where
  "dict_get (JObj kvs) k d = Inr (case map_of kvs k of None \<Rightarrow> d | Some v \<Rightarrow> v)"
| "dict_get _ k d = Inl AttributeError"

text \<open>
  Iterating a value (\<^verbatim>\<open>for x in v\<close>, \<^verbatim>\<open>enumerate(v)\<close>, \<^verbatim>\<open>list.extend(v)\<close>): a list yields
  its elements, a string its characters as one-character strings, a dict its keys; the
  other values are not iterable.
\<close>

fun py_iter :: "json \<Rightarrow> error + json list" where
  "py_iter (JArr xs) = Inr xs"
| "py_iter (JStr s) = Inr (map (\<lambda>c. JStr [c]) s)"
| "py_iter (JObj kvs) = Inr (map (\<lambda>kv. JStr (fst kv)) kvs)"
| "py_iter _ = Inl TypeError"

text \<open>\<^verbatim>\<open>len(v)\<close>.\<close>

fun py_len :: "json \<Rightarrow> error + nat" where
  "py_len (JArr xs) = Inr (length xs)"
| "py_len (JStr s) = Inr (length s)"
| "py_len (JObj kvs) = Inr (length kvs)"
| "py_len _ = Inl TypeError"

text \<open>
  \<^verbatim>\<open>a == b\<close>: \<^verbatim>\<open>bool\<close>, \<^verbatim>\<open>int\<close> and \<^verbatim>\<open>float\<close> compare by numeric value
  (\<^verbatim>\<open>True == 1 == 1.0\<close>), lists element by element, dicts key by key whatever the
  order of their items, and values of different kinds are unequal.
\<close>

fun num_value :: "json \<Rightarrow> rat option" where
  "num_value (JBool b) = Some (if b then 1 else 0)"
| "num_value (JInt i) = Some (of_int i)"
| "num_value (JFloat q) = Some q"
| "num_value _ = None"

fun py_eq :: "json \<Rightarrow> json \<Rightarrow> bool" where
  "py_eq JNull b = (b = JNull)"
| "py_eq (JStr s) b = (b = JStr s)"
| "py_eq (JArr xs) b = (case b of JArr ys \<Rightarrow> list_all2 py_eq xs ys | _ \<Rightarrow> False)"
| "py_eq (JObj kvs) b =
     (case b of
        JObj kvs' \<Rightarrow>
          length kvs = length kvs' \<and>
          list_all (\<lambda>kv. case map_of kvs' (fst kv) of
                             None \<Rightarrow> False
                           | Some v' \<Rightarrow> py_eq (snd kv) v') kvs
      | _ \<Rightarrow> False)"
| "py_eq a b = (num_value a \<noteq> None \<and> num_value a = num_value b)"

section \<open>Strings\<close>

text \<open>
  \<^verbatim>\<open>str.isspace\<close>, \<^verbatim>\<open>str.lower\<close>, \<^verbatim>\<open>str.strip()\<close>, \<^verbatim>\<open>str.split()\<close>,
  \<^verbatim>\<open>sep.join\<close> and the substring test \<^verbatim>\<open>p in g\<close> on code points 0 to 255.
\<close>

definition py_isspace :: "char \<Rightarrow> bool" where
  "py_isspace c = ((of_char c :: nat) \<in> set [9, 10, 11, 12, 13, 28, 29, 30, 31, 32, 133, 160])"

definition lower_char :: "char \<Rightarrow> char" where
  "lower_char c =
     (let n = (of_char c :: nat)
      in if (65 \<le> n \<and> n \<le> 90) \<or> (192 \<le> n \<and> n \<le> 222 \<and> n \<noteq> 215)
         then char_of (n + 32) else c)"

definition py_lower :: "string \<Rightarrow> string" where
  "py_lower s = map lower_char s"

definition py_strip :: "string \<Rightarrow> string" where
  "py_strip s = rev (dropWhile py_isspace (rev (dropWhile py_isspace s)))"

text \<open>
  \<open>split_words cur s\<close> reads \<open>s\<close> with the word \<open>cur\<close> in progress; a whitespace
  character closes the word if there is one, so no empty word is produced.
\<close>

fun split_words :: "string \<Rightarrow> string \<Rightarrow> string list" where
  "split_words cur [] = (if cur = [] then [] else [cur])"
| "split_words cur (c # cs) =
     (if py_isspace c
      then (if cur = [] then split_words [] cs else cur # split_words [] cs)
      else split_words (cur @ [c]) cs)"

definition py_split :: "string \<Rightarrow> string list" where
  "py_split s = split_words [] s"

fun py_join :: "string \<Rightarrow> string list \<Rightarrow> string" where
  "py_join sep [] = []"
| "py_join sep [w] = w"
| "py_join sep (w # ws) = w @ sep @ py_join sep ws"

fun py_in :: "string \<Rightarrow> string \<Rightarrow> bool" where
  "py_in p [] = (p = [])"
| "py_in p (c # cs) = (prefix p (c # cs) \<or> py_in p cs)"

section \<open>Text normalisation and the two text predicates\<close>

text \<open>
  \<^verbatim>\<open>" ".join(s.lower().strip().split())\<close>. A value that is not a string has no
  attribute \<^verbatim>\<open>lower\<close>.
\<close>

definition normalize_str :: "string \<Rightarrow> string" where
  "normalize_str s = py_join '' '' (py_split (py_strip (py_lower s)))"

fun normalize_for_match :: "json \<Rightarrow> error + string" where
  "normalize_for_match (JStr s) = Inr (normalize_str s)"
| "normalize_for_match _ = Inl AttributeError"

definition partial_match :: "json \<Rightarrow> json \<Rightarrow> error + bool" where
  "partial_match pred_text gold_text =
     (case normalize_for_match pred_text of
        Inl e \<Rightarrow> Inl e
      | Inr p \<Rightarrow>
          (case normalize_for_match gold_text of
             Inl e \<Rightarrow> Inl e
           | Inr g \<Rightarrow>
               if p = [] \<or> g = [] then Inr False
               else Inr (py_in p g \<or> py_in g p)))"

definition exact_match :: "json \<Rightarrow> json \<Rightarrow> error + bool" where
  "exact_match pred_text gold_text =
     (case normalize_for_match pred_text of
        Inl e \<Rightarrow> Inl e
      | Inr p \<Rightarrow>
          (case normalize_for_match gold_text of
             Inl e \<Rightarrow> Inl e
           | Inr g \<Rightarrow> Inr (p = g)))"

section \<open>Loading a gold file\<close>

text \<open>
  \<^verbatim>\<open>load_gold\<close> on the value \<^verbatim>\<open>json.load\<close> returned for the file (reading and parsing
  the file are outside the model).
\<close>

definition load_gold :: "json \<Rightarrow> json" where
  "load_gold data =
     (case data of
        JArr xs \<Rightarrow> data
      | JObj kvs \<Rightarrow> (case map_of kvs ''extractions'' of Some v \<Rightarrow> v | None \<Rightarrow> JArr [])
      | _ \<Rightarrow> JArr [])"

section \<open>The scorer\<close>

text \<open>
  The dict \<^verbatim>\<open>compute_metrics\<close> returns, with the keys \<^verbatim>\<open>"tp"\<close>, \<^verbatim>\<open>"pred"\<close> and
  \<^verbatim>\<open>"gold"\<close> under the names the specification gives them.
\<close>

record metrics =
  precision :: rat
  recall :: rat
  f1 :: rat
  true_positives :: nat
  predicted_count :: nat
  gold_count :: nat

text \<open>
  Floating point: every float operation of the script returns \<open>fl\<close> of the exact result,
  where \<open>fl\<close> is the rounding of the machine's float format. The scorer takes \<open>fl\<close> as a
  parameter; \<open>float_rounding\<close> lists what the theorems below use of it, all of which
  holds of round-to-nearest in binary floating point on the values that occur here
  (ratios of list lengths and sums and products of at most 2): rounding is monotone,
  0, 1 and 1/2 are floats, and twice a float is a float. The metric values are the
  rationals the floats denote.
\<close>

definition float_rounding :: "(rat \<Rightarrow> rat) \<Rightarrow> bool" where
  "float_rounding fl \<longleftrightarrow>
     (\<forall>x y. x \<le> y \<longrightarrow> fl x \<le> fl y) \<and> fl 0 = 0 \<and> fl 1 = 1 \<and> fl (1 / 2) = 1 / 2 \<and>
     (\<forall>x. fl (2 * fl x) = 2 * fl x)"

text \<open>Arithmetic without rounding error, the simplest \<open>float_rounding\<close>.\<close>

definition no_rounding :: "rat \<Rightarrow> rat" where
  "no_rounding x = x"

text \<open>Rounding to the nearest multiple of 1/1024, a \<open>float_rounding\<close> that loses precision.\<close>

definition round_to_grid :: "rat \<Rightarrow> rat" where
  "round_to_grid x = of_int (round (x * 1024)) / 1024"

text \<open>
  The inner loop \<^verbatim>\<open>for i, g in enumerate(gold)\<close> for one predicted record, from index
  \<open>i\<close> on: \<open>Some i\<close> is the index at which the loop breaks, \<open>None\<close> a loop that ends
  without a match.
\<close>

fun scan_gold ::
  "(json \<Rightarrow> json \<Rightarrow> error + bool) \<Rightarrow> nat set \<Rightarrow> json \<Rightarrow> json \<Rightarrow> nat \<Rightarrow> json list
     \<Rightarrow> error + nat option" where
  "scan_gold match matched_gold p_class p_text i [] = Inr None"
| "scan_gold match matched_gold p_class p_text i (g # gs) =
     (if i \<in> matched_gold then scan_gold match matched_gold p_class p_text (Suc i) gs
      else
        case dict_get g ''class'' (JStr []) of
          Inl e \<Rightarrow> Inl e
        | Inr g_class \<Rightarrow>
            if \<not> py_eq p_class g_class
            then scan_gold match matched_gold p_class p_text (Suc i) gs
            else
              (case dict_get g ''text'' (JStr []) of
                 Inl e \<Rightarrow> Inl e
               | Inr g_text \<Rightarrow>
                   (case match p_text g_text of
                      Inl e \<Rightarrow> Inl e
                    | Inr b \<Rightarrow>
                        if b then Inr (Some i)
                        else scan_gold match matched_gold p_class p_text (Suc i) gs)))"

text \<open>
  The outer loop \<^verbatim>\<open>for p in predicted\<close> over the records still to process, on the
  state \<open>(tp, matched_gold)\<close>.
\<close>

fun match_loop ::
  "(json \<Rightarrow> json \<Rightarrow> error + bool) \<Rightarrow> json \<Rightarrow> nat \<times> nat set \<Rightarrow> json list
     \<Rightarrow> error + nat \<times> nat set" where
  "match_loop match gold (tp, matched_gold) [] = Inr (tp, matched_gold)"
| "match_loop match gold (tp, matched_gold) (p # ps) =
     (case dict_get p ''class'' (JStr []) of
        Inl e \<Rightarrow> Inl e
      | Inr p_class \<Rightarrow>
          (case dict_get p ''text'' (JStr []) of
             Inl e \<Rightarrow> Inl e
           | Inr p_text \<Rightarrow>
               (case py_iter gold of
                  Inl e \<Rightarrow> Inl e
                | Inr gs \<Rightarrow>
                    (case scan_gold match matched_gold p_class p_text 0 gs of
                       Inl e \<Rightarrow> Inl e
                     | Inr None \<Rightarrow> match_loop match gold (tp, matched_gold) ps
                     | Inr (Some i) \<Rightarrow>
                         match_loop match gold (tp + 1, insert i matched_gold) ps))))"

definition compute_metrics :: "(rat \<Rightarrow> rat) \<Rightarrow> json \<Rightarrow> json \<Rightarrow> string \<Rightarrow> error + metrics" where
  "compute_metrics fl predicted gold match_fn =
     (let match = (if match_fn = ''partial'' then partial_match else exact_match) in
      case py_iter predicted of
        Inl e \<Rightarrow> Inl e
      | Inr ps \<Rightarrow>
          (case match_loop match gold (0, {}) ps of
             Inl e \<Rightarrow> Inl e
           | Inr (tp, matched_gold) \<Rightarrow>
               (case py_len predicted of
                  Inl e \<Rightarrow> Inl e
                | Inr num_pred \<Rightarrow>
                    (case py_len gold of
                       Inl e \<Rightarrow> Inl e
                     | Inr num_gold \<Rightarrow>
                         let p = (if num_pred \<noteq> 0 then fl (of_nat tp / of_nat num_pred) else 0);
                             r = (if num_gold \<noteq> 0 then fl (of_nat tp / of_nat num_gold) else 0);
                             f = (if fl (p + r) > 0
                                  then fl (fl (fl (2 * p) * r) / fl (p + r)) else 0)
                         in Inr \<lparr>precision = p, recall = r, f1 = f, true_positives = tp,
                                 predicted_count = num_pred, gold_count = num_gold\<rparr>))))"

section \<open>Evaluation over a directory of samples\<close>

text \<open>
  One \<^verbatim>\<open>*.txt\<close> file of the samples directory: its name, and what \<^verbatim>\<open>json.load\<close> returns
  for its gold file and for its \<^verbatim>\<open>_pred.json\<close> file, \<open>None\<close> when the file does not
  exist. \<^verbatim>\<open>run_eval\<close> takes the files in sorted order; writing the report to the output
  directory is outside the model.
\<close>

record document =
  file_name :: string
  gold_file :: "json option"
  pred_file :: "json option"

text \<open>The report; \<open>None\<close> is the empty dict \<^verbatim>\<open>{}\<close> as aggregate.\<close>

record report =
  per_file :: "(string \<times> metrics) list"
  aggregate :: "metrics option"

fun eval_loop ::
  "(rat \<Rightarrow> rat) \<Rightarrow> (string \<times> metrics) list \<times> json list \<times> json list \<Rightarrow> document list
     \<Rightarrow> error + (string \<times> metrics) list \<times> json list \<times> json list" where
  "eval_loop fl (results, all_pred, all_gold) [] = Inr (results, all_pred, all_gold)"
| "eval_loop fl (results, all_pred, all_gold) (d # ds) =
     (case gold_file d of
        None \<Rightarrow> eval_loop fl (results, all_pred, all_gold) ds
      | Some data \<Rightarrow>
          let gold = load_gold data in
          (case pred_file d of
             None \<Rightarrow> eval_loop fl (results, all_pred, all_gold) ds
           | Some pred \<Rightarrow>
               let pred_list =
                     (case pred of
                        JArr xs \<Rightarrow> pred
                      | JObj kvs \<Rightarrow>
                          (case map_of kvs ''extractions'' of Some v \<Rightarrow> v | None \<Rightarrow> JArr [])
                      | _ \<Rightarrow> JArr [])
               in
               (case compute_metrics fl pred_list gold ''partial'' of
                  Inl e \<Rightarrow> Inl e
                | Inr m \<Rightarrow>
                    (case py_iter pred_list of
                       Inl e \<Rightarrow> Inl e
                     | Inr ps \<Rightarrow>
                         (case py_iter gold of
                            Inl e \<Rightarrow> Inl e
                          | Inr gs \<Rightarrow>
                              eval_loop fl
                                (results @ [(file_name d, m)], all_pred @ ps, all_gold @ gs) ds)))))"

definition run_eval :: "(rat \<Rightarrow> rat) \<Rightarrow> document list \<Rightarrow> error + report" where
  "run_eval fl docs =
     (case eval_loop fl ([], [], []) docs of
        Inl e \<Rightarrow> Inl e
      | Inr (results, all_pred, all_gold) \<Rightarrow>
          if all_pred \<noteq> [] \<and> all_gold \<noteq> []
          then (case compute_metrics fl (JArr all_pred) (JArr all_gold) ''partial'' of
                  Inl e \<Rightarrow> Inl e
                | Inr m \<Rightarrow> Inr \<lparr>per_file = results, aggregate = Some m\<rparr>)
          else Inr \<lparr>per_file = results, aggregate = None\<rparr>)"

section \<open>Specification-level notions\<close>

text \<open>
  The shape the docstring of \<^verbatim>\<open>compute_metrics\<close> gives a record,
  \<^verbatim>\<open>{"class": str, "text": str, ...}\<close>: a dict whose entries \<^verbatim>\<open>"class"\<close> and
  \<^verbatim>\<open>"text"\<close> are strings where they are present (an absent entry reads as the empty
  string), and the class and text the scorer reads from such a record.
\<close>

fun is_str :: "json \<Rightarrow> bool" where
  "is_str (JStr s) = True"
| "is_str _ = False"

fun is_extraction :: "json \<Rightarrow> bool" where
  "is_extraction (JObj kvs) =
     ((case map_of kvs ''class'' of None \<Rightarrow> True | Some v \<Rightarrow> is_str v) \<and>
      (case map_of kvs ''text'' of None \<Rightarrow> True | Some v \<Rightarrow> is_str v))"
| "is_extraction _ = False"

fun str_field :: "json \<Rightarrow> string \<Rightarrow> string" where
  "str_field (JObj kvs) k = (case map_of kvs k of Some (JStr s) \<Rightarrow> s | _ \<Rightarrow> [])"
| "str_field _ k = []"

definition record_class :: "json \<Rightarrow> string" where
  "record_class r = str_field r ''class''"

definition record_text :: "json \<Rightarrow> string" where
  "record_text r = str_field r ''text''"

definition extraction_record :: "string \<Rightarrow> string \<Rightarrow> json" where
  "extraction_record c t = JObj [(''class'', JStr c), (''text'', JStr t)]"

text \<open>An extraction record of the specification, as the pair of its class and its text.\<close>

type_synonym extraction = "string \<times> string"

definition as_extraction :: "json \<Rightarrow> extraction" where
  "as_extraction r = (record_class r, record_text r)"

text \<open>
  The two text predicates in the words of the specification (section 4.2), on the
  normalised strings.
\<close>

definition spec_exact :: "string \<Rightarrow> string \<Rightarrow> bool" where
  "spec_exact a b \<longleftrightarrow> normalize_str a = normalize_str b"

definition spec_partial :: "string \<Rightarrow> string \<Rightarrow> bool" where
  "spec_partial a b \<longleftrightarrow>
     normalize_str a \<noteq> [] \<and> normalize_str b \<noteq> [] \<and>
     (sublist (normalize_str a) (normalize_str b) \<or> sublist (normalize_str b) (normalize_str a))"

text \<open>A predicate of the script computes the predicate \<open>P\<close> on strings and never raises there.\<close>

definition refines :: "(json \<Rightarrow> json \<Rightarrow> error + bool) \<Rightarrow> (string \<Rightarrow> string \<Rightarrow> bool) \<Rightarrow> bool" where
  "refines match P \<longleftrightarrow> (\<forall>a b. match (JStr a) (JStr b) = Inr (P a b))"

text \<open>
  The greedy first-match algorithm in the words of the specification (section 4.3): a set
  of consumed gold indices, initially empty; for each predicted record in input order the
  first gold index, in input order, that is not consumed, carries the same class and
  satisfies the text predicate is consumed and counted.
\<close>

definition spec_first_match ::
  "(string \<Rightarrow> string \<Rightarrow> bool) \<Rightarrow> extraction list \<Rightarrow> nat set \<Rightarrow> extraction \<Rightarrow> nat option" where
  "spec_first_match P gold consumed p =
     find (\<lambda>i. i \<notin> consumed \<and> fst (gold ! i) = fst p \<and> P (snd p) (snd (gold ! i)))
       [0..<length gold]"

definition spec_step ::
  "(string \<Rightarrow> string \<Rightarrow> bool) \<Rightarrow> extraction list \<Rightarrow> extraction \<Rightarrow> nat \<times> nat set
     \<Rightarrow> nat \<times> nat set" where
  "spec_step P gold p st =
     (case spec_first_match P gold (snd st) p of
        None \<Rightarrow> st
      | Some i \<Rightarrow> (Suc (fst st), insert i (snd st)))"

definition spec_greedy ::
  "(string \<Rightarrow> string \<Rightarrow> bool) \<Rightarrow> extraction list \<Rightarrow> extraction list \<Rightarrow> nat \<times> nat set" where
  "spec_greedy P predicted gold = fold (spec_step P gold) predicted (0, {})"

text \<open>
  Documents for which \<^verbatim>\<open>run_eval\<close> has a predicted and a gold record sequence: both files
  exist and both load as lists of well-shaped records (a bare list, or a dict with the
  list in its field \<^verbatim>\<open>"extractions"\<close>); \<open>doc_pred\<close> and \<open>doc_gold\<close> are those two lists.
  \<^verbatim>\<open>run_eval\<close> reads the predicted file by the same three cases as \<^verbatim>\<open>load_gold\<close>.
\<close>

fun is_records :: "json \<Rightarrow> bool" where
  "is_records (JArr xs) = list_all is_extraction xs"
| "is_records _ = False"

fun as_list :: "json \<Rightarrow> json list" where
  "as_list (JArr xs) = xs"
| "as_list _ = []"

definition doc_gold :: "document \<Rightarrow> json list" where
  "doc_gold d = (case gold_file d of Some data \<Rightarrow> as_list (load_gold data) | None \<Rightarrow> [])"

definition doc_pred :: "document \<Rightarrow> json list" where
  "doc_pred d = (case pred_file d of Some data \<Rightarrow> as_list (load_gold data) | None \<Rightarrow> [])"

definition scorable :: "document \<Rightarrow> bool" where
  "scorable d =
     (case gold_file d of
        None \<Rightarrow> False
      | Some g \<Rightarrow>
          (case pred_file d of
             None \<Rightarrow> False
           | Some p \<Rightarrow> is_records (load_gold g) \<and> is_records (load_gold p)))"

section \<open>Strings and predicates\<close>

lemma py_in_sublist: "py_in p g = sublist p g"
  by (induction g) (simp_all add: sublist_Cons_right)

lemma partial_match_str: "partial_match (JStr a) (JStr b) = Inr (spec_partial a b)"
  by (simp add: partial_match_def spec_partial_def py_in_sublist)

lemma exact_match_str: "exact_match (JStr a) (JStr b) = Inr (spec_exact a b)"
  by (simp add: exact_match_def spec_exact_def)

lemma refines_partial: "refines partial_match spec_partial"
  by (simp add: refines_def partial_match_str)

lemma refines_exact: "refines exact_match spec_exact"
  by (simp add: refines_def exact_match_str)

lemma refines_selected:
  "refines (if match_fn = ''partial'' then partial_match else exact_match)
     (if match_fn = ''partial'' then spec_partial else spec_exact)"
  by (simp add: refines_partial refines_exact)

lemma partial_cefazolin:
  "partial_match (JStr ''cefazolin'') (JStr ''Cefazolin 250mg IV'') = Inr True"
  by code_simp

lemma exact_cefazolin:
  "exact_match (JStr ''cefazolin'') (JStr ''Cefazolin 250mg IV'') = Inr False"
  by code_simp

section \<open>Reading well-shaped records\<close>

lemma dict_get_class:
  "is_extraction r \<Longrightarrow> dict_get r ''class'' (JStr []) = Inr (JStr (record_class r))"
  by (cases r) (auto simp: record_class_def split: option.splits json.splits)

lemma dict_get_text:
  "is_extraction r \<Longrightarrow> dict_get r ''text'' (JStr []) = Inr (JStr (record_text r))"
  by (cases r) (auto simp: record_text_def split: option.splits json.splits)

lemma is_extraction_record [simp]: "is_extraction (extraction_record c t)"
  by (simp add: extraction_record_def)

lemma record_class_extraction_record [simp]: "record_class (extraction_record c t) = c"
  by (simp add: extraction_record_def record_class_def)

lemma record_text_extraction_record [simp]: "record_text (extraction_record c t) = t"
  by (simp add: extraction_record_def record_text_def)

section \<open>The loops compute the greedy first match\<close>

lemma scan_gold_refines:
  assumes m: "refines match P"
  shows "all = pre @ gs \<Longrightarrow> \<forall>g \<in> set gs. is_extraction g \<Longrightarrow>
    scan_gold match M (JStr c) (JStr t) (length pre) gs =
      Inr (find (\<lambda>i. i \<notin> M \<and> record_class (all ! i) = c \<and> P t (record_text (all ! i)))
             [length pre..<length all])"
proof (induction gs arbitrary: pre)
  case Nil
  then show ?case by simp
next
  case (Cons g gs)
  let ?Q = "\<lambda>i. i \<notin> M \<and> record_class (all ! i) = c \<and> P t (record_text (all ! i))"
  have ext: "is_extraction g" and rest: "\<forall>g \<in> set gs. is_extraction g"
    using Cons.prems by simp_all
  have all: "all = (pre @ [g]) @ gs" using Cons.prems by simp
  have ih: "scan_gold match M (JStr c) (JStr t) (Suc (length pre)) gs =
      Inr (find ?Q [Suc (length pre)..<length all])"
    using Cons.IH [OF all rest] by simp
  have here: "all ! length pre = g"
    by (simp add: all nth_append)
  have lt: "length pre < length all"
    by (simp add: all)
  have upt: "[length pre..<length all] = length pre # [Suc (length pre)..<length all]"
    using lt by (rule upt_conv_Cons)
  have mm: "match (JStr t) (JStr (record_text g)) = Inr (P t (record_text g))"
    using m by (simp add: refines_def)
  show ?case
    unfolding upt
    by (simp add: ih here dict_get_class [OF ext] dict_get_text [OF ext] mm eq_commute [of c])
qed

lemma scan_gold_spec:
  assumes m: "refines match P" and g: "\<forall>g \<in> set gs. is_extraction g"
  shows "scan_gold match M (JStr (record_class p)) (JStr (record_text p)) 0 gs =
     Inr (spec_first_match P (map as_extraction gs) M (as_extraction p))"
proof -
  have "scan_gold match M (JStr (record_class p)) (JStr (record_text p))
          (length ([]::json list)) gs =
      Inr (find (\<lambda>i. i \<notin> M \<and> record_class (gs ! i) = record_class p \<and>
                     P (record_text p) (record_text (gs ! i)))
             [length ([]::json list)..<length gs])"
    by (rule scan_gold_refines [OF m _ g]) simp
  moreover have "find (\<lambda>i. i \<notin> M \<and> record_class (gs ! i) = record_class p \<and>
                     P (record_text p) (record_text (gs ! i))) [0..<length gs] =
     spec_first_match P (map as_extraction gs) M (as_extraction p)"
    unfolding spec_first_match_def
    by (rule find_cong) (simp_all add: as_extraction_def)
  ultimately show ?thesis by simp
qed

lemma match_loop_refines:
  assumes m: "refines match P" and g: "\<forall>g \<in> set gs. is_extraction g"
  shows "\<forall>p \<in> set ps. is_extraction p \<Longrightarrow>
    match_loop match (JArr gs) st ps =
      Inr (fold (spec_step P (map as_extraction gs)) (map as_extraction ps) st)"
proof (induction ps arbitrary: st)
  case Nil
  then show ?case by (cases st) simp
next
  case (Cons p ps)
  obtain n M where st: "st = (n, M)" by (cases st)
  have p: "is_extraction p" and rest: "\<forall>p \<in> set ps. is_extraction p"
    using Cons.prems by simp_all
  note ih = Cons.IH [OF rest]
  show ?case
    by (simp add: st dict_get_class [OF p] dict_get_text [OF p] scan_gold_spec [OF m g] ih
        spec_step_def split: option.splits)
qed

text \<open>What \<^verbatim>\<open>compute_metrics\<close> returns on two lists once the matching loop has returned.\<close>

lemma compute_metrics_lists:
  "match_loop (if match_fn = ''partial'' then partial_match else exact_match) (JArr gs) (0, {}) ps
     = Inr (n, M) \<Longrightarrow>
   compute_metrics fl (JArr ps) (JArr gs) match_fn =
     Inr \<lparr>precision = (if ps \<noteq> [] then fl (of_nat n / of_nat (length ps)) else 0),
          recall = (if gs \<noteq> [] then fl (of_nat n / of_nat (length gs)) else 0),
          f1 = (let p = (if ps \<noteq> [] then fl (of_nat n / of_nat (length ps)) else 0);
                    r = (if gs \<noteq> [] then fl (of_nat n / of_nat (length gs)) else 0)
                in if fl (p + r) > 0 then fl (fl (fl (2 * p) * r) / fl (p + r)) else 0),
          true_positives = n, predicted_count = length ps, gold_count = length gs\<rparr>"
  by (simp add: compute_metrics_def Let_def)

lemma compute_metrics_records:
  assumes "\<forall>p \<in> set ps. is_extraction p" and "\<forall>g \<in> set gs. is_extraction g"
  shows "\<exists>m. compute_metrics fl (JArr ps) (JArr gs) match_fn = Inr m \<and>
     true_positives m =
       fst (spec_greedy (if match_fn = ''partial'' then spec_partial else spec_exact)
              (map as_extraction ps) (map as_extraction gs)) \<and>
     predicted_count m = length ps \<and> gold_count m = length gs"
proof -
  let ?P = "if match_fn = ''partial'' then spec_partial else spec_exact"
  obtain n M where nM: "spec_greedy ?P (map as_extraction ps) (map as_extraction gs) = (n, M)"
    by (cases "spec_greedy ?P (map as_extraction ps) (map as_extraction gs)")
  have "match_loop (if match_fn = ''partial'' then partial_match else exact_match)
          (JArr gs) (0, {}) ps = Inr (n, M)"
    using match_loop_refines [OF refines_selected assms(2) assms(1)] nM
    by (simp add: spec_greedy_def)
  from compute_metrics_lists [OF this] show ?thesis
    by (simp add: nM)
qed

lemma spec_step_other_classes:
  assumes "\<forall>g \<in> set gold. fst g \<noteq> fst p"
  shows "spec_step P gold p st = st"
proof -
  have "spec_first_match P gold (snd st) p = None"
    unfolding spec_first_match_def find_None_iff using assms by auto
  then show ?thesis by (simp add: spec_step_def)
qed

lemma spec_fold_other_classes:
  "\<forall>p \<in> set ps. \<forall>g \<in> set gold. fst g \<noteq> fst p \<Longrightarrow> fold (spec_step P gold) ps st = st"
  by (induction ps arbitrary: st) (simp_all add: spec_step_other_classes)

section \<open>Invariants of the matching loop\<close>

lemma py_iter_len: "py_iter v = Inr xs \<Longrightarrow> py_len v = Inr (length xs)"
  by (cases v) auto

lemma scan_gold_Some:
  "scan_gold match M pc pt i gs = Inr (Some j) \<Longrightarrow> i \<le> j \<and> j < i + length gs \<and> j \<notin> M"
proof (induction gs arbitrary: i)
  case Nil
  then show ?case by simp
next
  case (Cons g gs)
  from Cons.prems have "j = i \<and> i \<notin> M \<or> scan_gold match M pc pt (Suc i) gs = Inr (Some j)"
    by (auto split: if_splits sum.splits)
  then show ?case
  proof
    assume "j = i \<and> i \<notin> M"
    then show ?thesis by simp
  next
    assume "scan_gold match M pc pt (Suc i) gs = Inr (Some j)"
    from Cons.IH [OF this] show ?thesis by simp
  qed
qed

text \<open>One predicted record: the state is unchanged, or one fresh gold index is consumed.\<close>

lemma match_loop_one:
  assumes "match_loop match gold (n, M) [p] = Inr (n', M')" and "py_len gold = Inr k"
  shows "(n' = n \<and> M' = M) \<or> (\<exists>i. i < k \<and> i \<notin> M \<and> n' = n + 1 \<and> M' = insert i M)"
proof -
  from assms(1) obtain pc pt gs r where gs: "py_iter gold = Inr gs"
    and r: "scan_gold match M pc pt 0 gs = Inr r"
    and res: "(n', M') = (case r of None \<Rightarrow> (n, M) | Some i \<Rightarrow> (n + 1, insert i M))"
    by (auto split: sum.splits option.splits)
  have k: "length gs = k" using py_iter_len [OF gs] assms(2) by simp
  show ?thesis
  proof (cases r)
    case None
    with res show ?thesis by simp
  next
    case (Some i)
    with r have "i < k \<and> i \<notin> M" using scan_gold_Some [of match M pc pt 0 gs i] k by simp
    with res Some show ?thesis by auto
  qed
qed

lemma match_loop_Cons:
  "match_loop match gold st (p # ps) =
     (case match_loop match gold st [p] of Inl e \<Rightarrow> Inl e | Inr st' \<Rightarrow> match_loop match gold st' ps)"
  by (cases st) (simp split: sum.splits option.splits)

lemma match_loop_inv:
  "match_loop match gold (n, M) ps = Inr (n', M') \<Longrightarrow> py_len gold = Inr k \<Longrightarrow>
   finite M \<Longrightarrow> M \<subseteq> {..<k} \<Longrightarrow> card M = n \<Longrightarrow>
   finite M' \<and> M' \<subseteq> {..<k} \<and> card M' = n' \<and> n' \<le> n + length ps"
proof (induction ps arbitrary: n M)
  case Nil
  then show ?case by simp
next
  case (Cons p ps)
  from Cons.prems(1) obtain n1 M1 where one: "match_loop match gold (n, M) [p] = Inr (n1, M1)"
    and rest: "match_loop match gold (n1, M1) ps = Inr (n', M')"
    by (subst (asm) match_loop_Cons) (auto split: sum.splits)
  from match_loop_one [OF one Cons.prems(2)]
  have "finite M1 \<and> M1 \<subseteq> {..<k} \<and> card M1 = n1 \<and> n1 \<le> n + 1"
    using Cons.prems(3-5) by auto
  with Cons.IH [OF rest Cons.prems(2)] show ?case by auto
qed

lemma compute_metrics_Inr:
  assumes "compute_metrics fl predicted gold match_fn = Inr m"
  obtains ps n M k where "py_iter predicted = Inr ps"
    and "match_loop (if match_fn = ''partial'' then partial_match else exact_match) gold (0, {}) ps
           = Inr (n, M)"
    and "py_len gold = Inr k"
    and "true_positives m = n" and "predicted_count m = length ps" and "gold_count m = k"
    and "precision m = (if length ps \<noteq> 0 then fl (of_nat n / of_nat (length ps)) else 0)"
    and "recall m = (if k \<noteq> 0 then fl (of_nat n / of_nat k) else 0)"
    and "f1 m = (if fl (precision m + recall m) > 0
                 then fl (fl (fl (2 * precision m) * recall m) / fl (precision m + recall m))
                 else 0)"
proof -
  from assms obtain ps where ps: "py_iter predicted = Inr ps"
    by (auto simp: compute_metrics_def Let_def split: sum.splits)
  from assms ps obtain n M where nM: "match_loop (if match_fn = ''partial'' then partial_match else exact_match) gold (0, {}) ps
           = Inr (n, M)"
    by (auto simp: compute_metrics_def Let_def split: sum.splits)
  from assms ps nM obtain k where k: "py_len gold = Inr k"
    by (auto simp: compute_metrics_def Let_def py_iter_len split: sum.splits)
  from assms ps nM k have
    "m = \<lparr>precision = (if length ps \<noteq> 0 then fl (of_nat n / of_nat (length ps)) else 0),
          recall = (if k \<noteq> 0 then fl (of_nat n / of_nat k) else 0),
          f1 = (let p = (if length ps \<noteq> 0 then fl (of_nat n / of_nat (length ps)) else 0);
                    r = (if k \<noteq> 0 then fl (of_nat n / of_nat k) else 0)
                in if fl (p + r) > 0 then fl (fl (fl (2 * p) * r) / fl (p + r)) else 0),
          true_positives = n, predicted_count = length ps, gold_count = k\<rparr>"
    by (auto simp: compute_metrics_def Let_def py_iter_len split: sum.splits)
  then show ?thesis
    using that [OF ps nM k] by (simp add: Let_def)
qed

lemma true_positives_le:
  assumes "compute_metrics fl predicted gold match_fn = Inr m"
  shows "true_positives m \<le> predicted_count m \<and> true_positives m \<le> gold_count m"
proof -
  from assms obtain ps n M k where
    loop: "match_loop (if match_fn = ''partial'' then partial_match else exact_match) gold (0, {}) ps
           = Inr (n, M)"
    and k: "py_len gold = Inr k"
    and m: "true_positives m = n" "predicted_count m = length ps" "gold_count m = k"
    by (rule compute_metrics_Inr)
  from match_loop_inv [OF loop k] have inv: "finite M" "M \<subseteq> {..<k}" "card M = n" "n \<le> length ps"
    by simp_all
  have "card M \<le> card {..<k}" using inv(2) by (intro card_mono) simp_all
  with inv m show ?thesis by simp
qed

section \<open>Rounding and the unit interval\<close>

lemma float_rounding_exact: "float_rounding no_rounding"
  by (simp add: float_rounding_def no_rounding_def)

lemma float_rounding_grid: "float_rounding round_to_grid"
proof -
  have mono: "round_to_grid x \<le> round_to_grid y" if "x \<le> y" for x y
  proof -
    have "round (x * 1024) \<le> round (y * 1024)" using that by (intro round_mono) simp
    then show ?thesis by (simp add: round_to_grid_def divide_right_mono)
  qed
  have dbl: "round_to_grid (2 * round_to_grid x) = 2 * round_to_grid x" for x
  proof -
    have "2 * round_to_grid x * 1024 = of_int (2 * round (x * 1024))"
      by (simp add: round_to_grid_def)
    then have "round (2 * round_to_grid x * 1024) = 2 * round (x * 1024)"
      by (simp only: round_of_int)
    then show ?thesis by (simp add: round_to_grid_def)
  qed
  have z: "round_to_grid 0 = 0" by (simp add: round_to_grid_def)
  have o: "round_to_grid 1 = 1" by (simp add: round_to_grid_def)
  have h: "round_to_grid (1 / 2) = 1 / 2" by (simp add: round_to_grid_def)
  show ?thesis
    unfolding float_rounding_def using mono dbl z o h by blast
qed

lemma fl_unit_interval:
  assumes "float_rounding fl" and "0 \<le> x" and "x \<le> 1"
  shows "0 \<le> fl x \<and> fl x \<le> 1"
proof -
  have mono: "\<And>a b. a \<le> b \<Longrightarrow> fl a \<le> fl b" and z: "fl 0 = 0" and o: "fl 1 = 1"
    using assms(1) by (simp_all add: float_rounding_def)
  from mono [OF assms(2)] mono [OF assms(3)] show ?thesis by (simp add: z o)
qed

lemma ratio_unit_interval:
  assumes "float_rounding fl" and "n \<le> k"
  shows "0 \<le> (if k \<noteq> 0 then fl (of_nat n / of_nat k) else 0) \<and>
         (if k \<noteq> 0 then fl (of_nat n / of_nat k) else 0) \<le> 1"
proof (cases "k = 0")
  case True
  then show ?thesis by simp
next
  case False
  have "(0::rat) \<le> of_nat n / of_nat k" by simp
  moreover have "(of_nat n :: rat) / of_nat k \<le> 1"
    using assms(2) False by (simp add: divide_le_eq)
  ultimately show ?thesis
    using fl_unit_interval [OF assms(1)] False by simp
qed

lemma ratio_is_float:
  assumes "float_rounding fl"
  shows "fl (2 * (if k \<noteq> 0 then fl (of_nat n / of_nat k) else 0)) =
         2 * (if (k::nat) \<noteq> 0 then fl (of_nat (n::nat) / of_nat k) else 0)"
proof -
  have d: "\<And>x. fl (2 * fl x) = 2 * fl x" and z: "fl 0 = 0"
    using assms by (simp_all add: float_rounding_def)
  show ?thesis by (simp add: d z)
qed

lemma f1_unit_interval:
  assumes fl: "float_rounding fl" and p: "0 \<le> p" "p \<le> 1" and r: "0 \<le> r" "r \<le> 1"
    and d: "fl (2 * p) = 2 * p"
  shows "0 \<le> (if fl (p + r) > 0 then fl (fl (fl (2 * p) * r) / fl (p + r)) else 0) \<and>
         (if fl (p + r) > 0 then fl (fl (fl (2 * p) * r) / fl (p + r)) else 0) \<le> 1"
proof (cases "fl (p + r) > 0")
  case False
  then show ?thesis by simp
next
  case True
  have mono: "\<And>a b. a \<le> b \<Longrightarrow> fl a \<le> fl b" and z: "fl 0 = 0"
    using fl by (simp_all add: float_rounding_def)
  have "p * (1 - r) + r * (1 - p) \<ge> 0" using p r by simp
  then have le: "2 * p * r \<le> p + r" by (simp add: algebra_simps)
  have "0 \<le> 2 * p * r" using p r by simp
  from mono [OF this] have num0: "0 \<le> fl (fl (2 * p) * r)" by (simp add: z d)
  from mono [OF le] have numle: "fl (fl (2 * p) * r) \<le> fl (p + r)" by (simp add: d)
  have "0 \<le> fl (fl (2 * p) * r) / fl (p + r)" using num0 True by simp
  moreover have "fl (fl (2 * p) * r) / fl (p + r) \<le> 1" using numle True by (simp add: divide_le_eq)
  ultimately show ?thesis
    using fl_unit_interval [OF fl] True by simp
qed

lemma metrics_unit_interval:
  assumes fl: "float_rounding fl" and m: "compute_metrics fl predicted gold match_fn = Inr m"
  shows "0 \<le> precision m \<and> precision m \<le> 1 \<and> 0 \<le> recall m \<and> recall m \<le> 1 \<and>
         0 \<le> f1 m \<and> f1 m \<le> 1"
proof -
  from m obtain ps n M k where "py_iter predicted = Inr ps"
    and "match_loop (if match_fn = ''partial'' then partial_match else exact_match) gold (0, {}) ps
           = Inr (n, M)"
    and "py_len gold = Inr k"
    and tp: "true_positives m = n" "predicted_count m = length ps" "gold_count m = k"
    and p: "precision m = (if length ps \<noteq> 0 then fl (of_nat n / of_nat (length ps)) else 0)"
    and r: "recall m = (if k \<noteq> 0 then fl (of_nat n / of_nat k) else 0)"
    and f: "f1 m = (if fl (precision m + recall m) > 0
                 then fl (fl (fl (2 * precision m) * recall m) / fl (precision m + recall m))
                 else 0)"
    by (rule compute_metrics_Inr)
  from true_positives_le [OF m] tp have le: "n \<le> length ps" "n \<le> k" by simp_all
  have pb: "0 \<le> precision m \<and> precision m \<le> 1"
    unfolding p by (rule ratio_unit_interval [OF fl le(1)])
  have rb: "0 \<le> recall m \<and> recall m \<le> 1"
    unfolding r by (rule ratio_unit_interval [OF fl le(2)])
  have d: "fl (2 * precision m) = 2 * precision m"
    unfolding p by (rule ratio_is_float [OF fl])
  have "0 \<le> f1 m \<and> f1 m \<le> 1"
    unfolding f using pb rb d by (intro f1_unit_interval [OF fl]) simp_all
  with pb rb show ?thesis by simp
qed

section \<open>Scoring a sequence against itself\<close>

lemma spec_first_match_self:
  assumes "k < length X" and "P (snd (X ! k)) (snd (X ! k))"
  shows "spec_first_match P X {..<k} (X ! k) = Some k"
  unfolding spec_first_match_def find_Some_iff
  using assms by (intro exI [of _ k]) auto

lemma spec_fold_self:
  "X = done @ rest \<Longrightarrow> \<forall>p \<in> set rest. P (snd p) (snd p) \<Longrightarrow>
   fold (spec_step P X) rest (length done, {..<length done}) = (length X, {..<length X})"
proof (induction rest arbitrary: "done")
  case Nil
  then show ?case by simp
next
  case (Cons p rest)
  have k: "length done < length X" and p: "X ! length done = p"
    using Cons.prems(1) by (simp_all add: nth_append)
  have "spec_first_match P X {..<length done} p = Some (length done)"
    using spec_first_match_self [OF k] Cons.prems(2) p by simp
  then have step: "spec_step P X p (length done, {..<length done}) =
      (length (done @ [p]), {..<length (done @ [p])})"
    by (simp add: spec_step_def lessThan_Suc)
  have "X = (done @ [p]) @ rest" using Cons.prems(1) by simp
  from Cons.IH [OF this] Cons.prems(2) show ?case
    by (simp only: fold_simps step) simp
qed

lemma spec_greedy_self:
  assumes "\<forall>p \<in> set X. P (snd p) (snd p)"
  shows "spec_greedy P X X = (length X, {..<length X})"
  using spec_fold_self [of X "[]" X P] assms by (simp add: spec_greedy_def)

lemma exact_self_score:
  assumes fl: "float_rounding fl" and ne: "X \<noteq> []" and X: "\<forall>r \<in> set X. is_extraction r"
  shows "compute_metrics fl (JArr X) (JArr X) ''exact'' =
     Inr \<lparr>precision = 1, recall = 1, f1 = 1, true_positives = length X,
          predicted_count = length X, gold_count = length X\<rparr>"
proof -
  have g: "spec_greedy spec_exact (map as_extraction X) (map as_extraction X) =
      (length X, {..<length X})"
    using spec_greedy_self [of "map as_extraction X" spec_exact] by (simp add: spec_exact_def)
  have loop: "match_loop (if ''exact'' = ''partial'' then partial_match else exact_match)
      (JArr X) (0, {}) X = Inr (length X, {..<length X})"
    using match_loop_refines [OF refines_exact X X, of "(0, {})"] g
    by (simp add: spec_greedy_def)
  have o: "fl 1 = 1" and d: "\<And>x. fl (2 * fl x) = 2 * fl x"
    using fl by (simp_all add: float_rounding_def)
  have t: "fl 2 = 2" using d [of 1] by (simp add: o)
  have len: "(of_nat (length X) :: rat) \<noteq> 0" using ne by simp
  show ?thesis
    using compute_metrics_lists [OF loop, of fl] ne len by (simp add: o t)
qed

section \<open>The evaluation loop on scorable documents\<close>

lemma scorable_files:
  assumes "scorable d"
  obtains g p where "gold_file d = Some g" and "pred_file d = Some p"
    and "load_gold g = JArr (doc_gold d)" and "load_gold p = JArr (doc_pred d)"
    and "\<forall>r \<in> set (doc_gold d). is_extraction r" and "\<forall>r \<in> set (doc_pred d). is_extraction r"
proof -
  from assms obtain g p where g: "gold_file d = Some g" and p: "pred_file d = Some p"
    and rg: "is_records (load_gold g)" and rp: "is_records (load_gold p)"
    by (auto simp: scorable_def split: option.splits)
  from rg obtain gs where gs: "load_gold g = JArr gs" and eg: "list_all is_extraction gs"
    by (cases "load_gold g") auto
  from rp obtain ps where ps: "load_gold p = JArr ps" and ep: "list_all is_extraction ps"
    by (cases "load_gold p") auto
  show ?thesis
    using that [OF g p] gs ps eg ep by (simp add: doc_gold_def doc_pred_def g p list_all_iff)
qed

lemma eval_loop_step:
  assumes "scorable d"
  shows "\<exists>m. compute_metrics fl (JArr (doc_pred d)) (JArr (doc_gold d)) ''partial'' = Inr m \<and>
     eval_loop fl (results, all_pred, all_gold) (d # ds) =
       eval_loop fl (results @ [(file_name d, m)], all_pred @ doc_pred d, all_gold @ doc_gold d) ds"
proof -
  from assms obtain g p where g: "gold_file d = Some g" and p: "pred_file d = Some p"
    and lg: "load_gold g = JArr (doc_gold d)" and lp: "load_gold p = JArr (doc_pred d)"
    and eg: "\<forall>r \<in> set (doc_gold d). is_extraction r"
    and ep: "\<forall>r \<in> set (doc_pred d). is_extraction r"
    by (rule scorable_files)
  obtain m where m: "compute_metrics fl (JArr (doc_pred d)) (JArr (doc_gold d)) ''partial'' = Inr m"
    using compute_metrics_records [OF ep eg] by blast
  have disp: "(case p of JArr xs \<Rightarrow> p
      | JObj kvs \<Rightarrow> (case map_of kvs ''extractions'' of Some v \<Rightarrow> v | None \<Rightarrow> JArr [])
      | _ \<Rightarrow> JArr []) = JArr (doc_pred d)"
    using lp by (simp add: load_gold_def)
  have "eval_loop fl (results, all_pred, all_gold) (d # ds) =
       eval_loop fl (results @ [(file_name d, m)], all_pred @ doc_pred d, all_gold @ doc_gold d) ds"
    by (simp add: g p lg disp m Let_def)
  with m show ?thesis by blast
qed

lemma eval_loop_scorable:
  "\<forall>d \<in> set docs. scorable d \<Longrightarrow>
   \<exists>rs. eval_loop fl (results, all_pred, all_gold) docs =
          Inr (results @ rs, all_pred @ concat (map doc_pred docs),
               all_gold @ concat (map doc_gold docs)) \<and>
        list_all2 (\<lambda>d r. fst r = file_name d \<and>
            compute_metrics fl (JArr (doc_pred d)) (JArr (doc_gold d)) ''partial'' = Inr (snd r))
          docs rs"
proof (induction docs arbitrary: results all_pred all_gold)
  case Nil
  then show ?case by simp
next
  case (Cons d ds)
  have d: "scorable d" and ds: "\<forall>d \<in> set ds. scorable d" using Cons.prems by simp_all
  from eval_loop_step [OF d, of fl results all_pred all_gold ds] obtain m where
    m: "compute_metrics fl (JArr (doc_pred d)) (JArr (doc_gold d)) ''partial'' = Inr m"
    and step: "eval_loop fl (results, all_pred, all_gold) (d # ds) =
       eval_loop fl (results @ [(file_name d, m)], all_pred @ doc_pred d, all_gold @ doc_gold d) ds"
    by blast
  from Cons.IH [OF ds, of "results @ [(file_name d, m)]" "all_pred @ doc_pred d"
      "all_gold @ doc_gold d"]
  obtain rs where rs: "eval_loop fl (results @ [(file_name d, m)], all_pred @ doc_pred d,
        all_gold @ doc_gold d) ds =
      Inr ((results @ [(file_name d, m)]) @ rs, (all_pred @ doc_pred d) @ concat (map doc_pred ds),
           (all_gold @ doc_gold d) @ concat (map doc_gold ds))"
    and all: "list_all2 (\<lambda>d r. fst r = file_name d \<and>
            compute_metrics fl (JArr (doc_pred d)) (JArr (doc_gold d)) ''partial'' = Inr (snd r))
          ds rs"
    by blast
  show ?case
    using step rs all m by (intro exI [of _ "(file_name d, m) # rs"]) simp
qed

section \<open>Claims\<close>

subsection \<open>Greedy first match (C1)\<close>

text \<open>
  C1. On lists of well-shaped records \<^verbatim>\<open>compute_metrics\<close> returns, and its true-positive
  count is that of the greedy first-match algorithm of the specification: predicted
  records in input order, for each the first gold index in input order that is not
  consumed, has the same class string (plain string equality, nothing normalised) and
  satisfies the text predicate. In particular the count is 0 when no gold record has the
  class of a predicted record, whatever the texts.
\<close>

theorem compute_metrics_greedy_first_match:
  assumes "\<forall>p \<in> set predicted. is_extraction p" and "\<forall>g \<in> set gold. is_extraction g"
  shows "\<exists>m. compute_metrics fl (JArr predicted) (JArr gold) match_fn = Inr m \<and>
     true_positives m =
       fst (spec_greedy (if match_fn = ''partial'' then spec_partial else spec_exact)
              (map as_extraction predicted) (map as_extraction gold)) \<and>
     ((\<forall>p \<in> set predicted. \<forall>g \<in> set gold. record_class g \<noteq> record_class p)
        \<longrightarrow> true_positives m = 0)"
proof -
  let ?P = "if match_fn = ''partial'' then spec_partial else spec_exact"
  obtain m where m: "compute_metrics fl (JArr predicted) (JArr gold) match_fn = Inr m"
    and tp: "true_positives m =
       fst (spec_greedy ?P (map as_extraction predicted) (map as_extraction gold))"
    using compute_metrics_records [OF assms] by blast
  have "true_positives m = 0"
    if "\<forall>p \<in> set predicted. \<forall>g \<in> set gold. record_class g \<noteq> record_class p"
  proof -
    have "\<forall>p \<in> set (map as_extraction predicted). \<forall>g \<in> set (map as_extraction gold).
            fst g \<noteq> fst p"
      using that by (simp add: as_extraction_def)
    from spec_fold_other_classes [OF this] show ?thesis
      by (simp add: tp spec_greedy_def)
  qed
  with m tp show ?thesis by blast
qed

text \<open>
  The class gate at the records of the specification: same text "Cefazolin", classes
  "medication" and "dosage", under both predicates; classes that differ in case only; and
  a run in which the first candidate of the right class is skipped by the text predicate.
\<close>

theorem compute_metrics_greedy_first_match_witness:
  "list_all is_extraction [extraction_record ''medication'' ''Cefazolin''] \<and>
   list_all is_extraction [extraction_record ''dosage'' ''Cefazolin''] \<and>
   (\<exists>m. compute_metrics no_rounding (JArr [extraction_record ''medication'' ''Cefazolin''])
           (JArr [extraction_record ''dosage'' ''Cefazolin'']) ''partial'' = Inr m \<and>
         true_positives m = 0) \<and>
   (\<exists>m. compute_metrics no_rounding (JArr [extraction_record ''medication'' ''Cefazolin''])
           (JArr [extraction_record ''dosage'' ''Cefazolin'']) ''exact'' = Inr m \<and>
         true_positives m = 0) \<and>
   (\<exists>m. compute_metrics no_rounding (JArr [extraction_record ''Medication'' ''Cefazolin''])
           (JArr [extraction_record ''medication'' ''Cefazolin'']) ''exact'' = Inr m \<and>
         true_positives m = 0) \<and>
   (\<exists>m. compute_metrics no_rounding
           (JArr [extraction_record ''medication'' ''cefazolin'',
                  extraction_record ''medication'' ''Cefazolin 250mg''])
           (JArr [extraction_record ''dosage'' ''cefazolin'',
                  extraction_record ''medication'' ''heparin'',
                  extraction_record ''medication'' ''Cefazolin 250mg IV''])
           ''partial'' = Inr m \<and>
         true_positives m = 1)"
proof -
  let ?ps = "[extraction_record ''medication'' ''cefazolin'',
              extraction_record ''medication'' ''Cefazolin 250mg'']"
  let ?gs = "[extraction_record ''dosage'' ''cefazolin'',
              extraction_record ''medication'' ''heparin'',
              extraction_record ''medication'' ''Cefazolin 250mg IV'']"
  have p: "\<forall>p \<in> set [extraction_record ''medication'' ''Cefazolin'']. is_extraction p"
    by simp
  have g: "\<forall>g \<in> set [extraction_record ''dosage'' ''Cefazolin'']. is_extraction g"
    by simp
  have p': "\<forall>p \<in> set [extraction_record ''Medication'' ''Cefazolin'']. is_extraction p"
    by simp
  have ps: "\<forall>p \<in> set ?ps. is_extraction p" and gs: "\<forall>g \<in> set ?gs. is_extraction g"
    by simp_all
  have run: "fst (spec_greedy spec_partial
        [(''medication'', ''cefazolin''), (''medication'', ''Cefazolin 250mg'')]
        [(''dosage'', ''cefazolin''), (''medication'', ''heparin''),
         (''medication'', ''Cefazolin 250mg IV'')]) = 1"
    by code_simp
  have a: "\<exists>m. compute_metrics no_rounding (JArr [extraction_record ''medication'' ''Cefazolin''])
           (JArr [extraction_record ''dosage'' ''Cefazolin'']) ''partial'' = Inr m \<and>
         true_positives m = 0"
    using compute_metrics_greedy_first_match [OF p g, of no_rounding "''partial''"] by auto
  have b: "\<exists>m. compute_metrics no_rounding (JArr [extraction_record ''medication'' ''Cefazolin''])
           (JArr [extraction_record ''dosage'' ''Cefazolin'']) ''exact'' = Inr m \<and>
         true_positives m = 0"
    using compute_metrics_greedy_first_match [OF p g, of no_rounding "''exact''"] by auto
  have c: "\<exists>m. compute_metrics no_rounding (JArr [extraction_record ''Medication'' ''Cefazolin''])
           (JArr [extraction_record ''medication'' ''Cefazolin'']) ''exact'' = Inr m \<and>
         true_positives m = 0"
    using compute_metrics_greedy_first_match [OF p' p, of no_rounding "''exact''"] by auto
  have d: "\<exists>m. compute_metrics no_rounding (JArr ?ps) (JArr ?gs) ''partial'' = Inr m \<and>
         true_positives m = 1"
    using compute_metrics_greedy_first_match [OF ps gs, of no_rounding "''partial''"] run
    by (auto simp: as_extraction_def)
  from a b c d show ?thesis by simp
qed

subsection \<open>Metric formulas and failure (C2)\<close>

text \<open>
  C2, as the code has it. On lists of well-shaped records \<^verbatim>\<open>compute_metrics\<close> returns a
  metrics dict with precision the rounded quotient of the true positives by the number of
  predicted records (0 for none), recall the rounded quotient by the number of gold
  records (0 for none), and F1 computed as \<^verbatim>\<open>2 * precision * recall / (precision + recall)\<close>,
  each operation rounded, when the rounded sum is positive, and 0 otherwise; with no
  predicted or no gold record precision, recall, F1 and the true positives are all 0, and
  the two counts are the lengths of the lists.
\<close>

theorem metrics_formulas:
  assumes fl: "float_rounding fl"
    and ps: "\<forall>p \<in> set ps. is_extraction p" and gs: "\<forall>g \<in> set gs. is_extraction g"
  shows "\<exists>m. compute_metrics fl (JArr ps) (JArr gs) match_fn = Inr m \<and>
     precision m =
       (if ps = [] then 0 else fl (of_nat (true_positives m) / of_nat (length ps))) \<and>
     recall m =
       (if gs = [] then 0 else fl (of_nat (true_positives m) / of_nat (length gs))) \<and>
     f1 m =
       (if 0 < fl (precision m + recall m)
        then fl (fl (fl (2 * precision m) * recall m) / fl (precision m + recall m)) else 0) \<and>
     predicted_count m = length ps \<and> gold_count m = length gs \<and>
     (ps = [] \<or> gs = [] \<longrightarrow>
        precision m = 0 \<and> recall m = 0 \<and> f1 m = 0 \<and> true_positives m = 0)"
proof -
  obtain m where m: "compute_metrics fl (JArr ps) (JArr gs) match_fn = Inr m"
    using compute_metrics_records [OF ps gs] by blast
  from m obtain ps' n M k where it: "py_iter (JArr ps) = Inr ps'"
    and "match_loop (if match_fn = ''partial'' then partial_match else exact_match) (JArr gs)
           (0, {}) ps' = Inr (n, M)"
    and len: "py_len (JArr gs) = Inr k"
    and tp: "true_positives m = n" and pc: "predicted_count m = length ps'" and gc: "gold_count m = k"
    and p: "precision m = (if length ps' \<noteq> 0 then fl (of_nat n / of_nat (length ps')) else 0)"
    and r: "recall m = (if k \<noteq> 0 then fl (of_nat n / of_nat k) else 0)"
    and f: "f1 m = (if fl (precision m + recall m) > 0
                 then fl (fl (fl (2 * precision m) * recall m) / fl (precision m + recall m))
                 else 0)"
    by (rule compute_metrics_Inr)
  have eq: "ps' = ps" "k = length gs" using it len by simp_all
  have z: "fl 0 = 0" using fl by (simp add: float_rounding_def)
  have p': "precision m =
       (if ps = [] then 0 else fl (of_nat (true_positives m) / of_nat (length ps)))"
    using p by (simp add: eq tp)
  have r': "recall m =
       (if gs = [] then 0 else fl (of_nat (true_positives m) / of_nat (length gs)))"
    using r by (simp add: eq tp)
  have deg: "precision m = 0 \<and> recall m = 0 \<and> f1 m = 0 \<and> true_positives m = 0"
    if "ps = [] \<or> gs = []"
  proof -
    have n0: "true_positives m = 0"
      using true_positives_le [OF m] that by (auto simp: pc gc eq)
    have p0: "precision m = 0" and r0: "recall m = 0"
      by (simp_all add: p' r' n0 z)
    have "f1 m = 0" by (subst f) (simp add: p0 r0 z)
    with n0 p0 r0 show ?thesis by simp
  qed
  from m p' r' f pc gc deg show ?thesis
    by (auto simp: eq)
qed

text \<open>
  The degenerate inputs (no predicted record, no gold record, neither), and two predicted
  records against one gold record without rounding, where F1 is 2/3.
\<close>

theorem metrics_formulas_witness:
  "float_rounding no_rounding \<and>
   list_all is_extraction [extraction_record ''symptom_sign'' ''fever''] \<and>
   (\<exists>m. compute_metrics no_rounding (JArr [])
           (JArr [extraction_record ''symptom_sign'' ''fever'']) ''partial'' = Inr m \<and>
         precision m = 0 \<and> recall m = 0 \<and> f1 m = 0 \<and> true_positives m = 0 \<and>
         predicted_count m = 0 \<and> gold_count m = 1) \<and>
   (\<exists>m. compute_metrics no_rounding (JArr [extraction_record ''symptom_sign'' ''fever''])
           (JArr []) ''partial'' = Inr m \<and>
         precision m = 0 \<and> recall m = 0 \<and> f1 m = 0 \<and> true_positives m = 0 \<and>
         predicted_count m = 1 \<and> gold_count m = 0) \<and>
   (\<exists>m. compute_metrics no_rounding (JArr []) (JArr []) ''partial'' = Inr m \<and>
         precision m = 0 \<and> recall m = 0 \<and> f1 m = 0 \<and> true_positives m = 0 \<and>
         predicted_count m = 0 \<and> gold_count m = 0) \<and>
   (\<exists>m. compute_metrics no_rounding
           (JArr [extraction_record ''symptom_sign'' ''fever'',
                  extraction_record ''symptom_sign'' ''fever''])
           (JArr [extraction_record ''symptom_sign'' ''fever'']) ''partial'' = Inr m \<and>
         true_positives m = 1 \<and> precision m = 1 / 2 \<and> recall m = 1 \<and>
         f1 m = 2 * (1 / 2) * 1 / (1 / 2 + 1) \<and> f1 m = 2 / 3)"
proof -
  let ?r = "extraction_record ''symptom_sign'' ''fever''"
  have fl: "float_rounding no_rounding"
    by (simp add: float_rounding_def no_rounding_def)
  have r: "\<forall>p \<in> set [?r]. is_extraction p"
    by simp
  have rr: "\<forall>p \<in> set [?r, ?r]. is_extraction p"
    by simp
  have e: "\<forall>p \<in> set ([]::json list). is_extraction p"
    by simp
  have run: "compute_metrics no_rounding (JArr [?r, ?r]) (JArr [?r]) ''partial'' =
      Inr \<lparr>precision = 1 / 2, recall = 1, f1 = 2 / 3, true_positives = 1, predicted_count = 2,
           gold_count = 1\<rparr>"
    by code_simp
  have a: "\<exists>m. compute_metrics no_rounding (JArr []) (JArr [?r]) ''partial'' = Inr m \<and>
         precision m = 0 \<and> recall m = 0 \<and> f1 m = 0 \<and> true_positives m = 0 \<and>
         predicted_count m = 0 \<and> gold_count m = 1"
    using metrics_formulas [OF fl e r, of "''partial''"] by auto
  have b: "\<exists>m. compute_metrics no_rounding (JArr [?r]) (JArr []) ''partial'' = Inr m \<and>
         precision m = 0 \<and> recall m = 0 \<and> f1 m = 0 \<and> true_positives m = 0 \<and>
         predicted_count m = 1 \<and> gold_count m = 0"
    using metrics_formulas [OF fl r e, of "''partial''"] by auto
  have c: "\<exists>m. compute_metrics no_rounding (JArr []) (JArr []) ''partial'' = Inr m \<and>
         precision m = 0 \<and> recall m = 0 \<and> f1 m = 0 \<and> true_positives m = 0 \<and>
         predicted_count m = 0 \<and> gold_count m = 0"
    using metrics_formulas [OF fl e e, of "''partial''"] by auto
  have d: "\<exists>m. compute_metrics no_rounding (JArr [?r, ?r]) (JArr [?r]) ''partial'' = Inr m \<and>
         true_positives m = 1 \<and> precision m = 1 / 2 \<and> recall m = 1 \<and>
         f1 m = 2 * (1 / 2) * 1 / (1 / 2 + 1) \<and> f1 m = 2 / 3"
    using metrics_formulas [OF fl rr r, of "''partial''"] run
    by (auto simp: no_rounding_def)
  from fl a b c d show ?thesis by simp
qed

text \<open>
  C2 as stated fails on "never raises": a predicted record whose text is \<^verbatim>\<open>null\<close> meets a
  gold record of its class, the partial predicate calls \<^verbatim>\<open>lower\<close> on \<^verbatim>\<open>None\<close>, and the
  scorer raises \<^verbatim>\<open>AttributeError\<close>.
\<close>

theorem null_text_raises:
  "compute_metrics no_rounding
     (JArr [JObj [(''class'', JStr ''medication''), (''text'', JNull)]])
     (JArr [JObj [(''class'', JStr ''medication''), (''text'', JStr ''Cefazolin'')]]) ''partial'' =
   Inl AttributeError"
  by code_simp

subsection \<open>Blank texts (C3)\<close>

text \<open>
  C3, as the code has it. When one of two strings normalises to the empty string, the
  partial predicate returns false, and the exact predicate returns false unless both
  strings normalise to the empty string, where it returns true.
\<close>

theorem blank_text_predicates:
  "normalize_str a = [] \<or> normalize_str b = [] \<Longrightarrow>
   partial_match (JStr a) (JStr b) = Inr False \<and>
   exact_match (JStr a) (JStr b) = Inr (normalize_str a = [] \<and> normalize_str b = [])"
  by (auto simp add: partial_match_def exact_match_def)

text \<open>A blank predicted text against a gold text that is not blank.\<close>

theorem blank_text_predicates_witness:
  "(normalize_str ''  '' = [] \<or> normalize_str ''fever'' = []) \<and>
   partial_match (JStr ''  '') (JStr ''fever'') = Inr False \<and>
   exact_match (JStr ''  '') (JStr ''fever'') = Inr False"
proof -
  have h: "normalize_str ''  '' = []" by code_simp
  have n: "normalize_str ''fever'' \<noteq> []" by code_simp
  show ?thesis
    using blank_text_predicates [of "''  ''" "''fever''"] h n by simp
qed

text \<open>
  C3 as stated fails: a text of one space and the empty text both normalise to the empty
  string, and the exact predicate returns true on them.
\<close>

theorem exact_match_blank_counterexample:
  "normalize_str '' '' = [] \<and> normalize_str [] = [] \<and>
   exact_match (JStr '' '') (JStr []) = Inr True"
  by code_simp

subsection \<open>The aggregate of a report (C4)\<close>

text \<open>
  C4, as the code has it. For documents that all have a predicted and a gold record
  sequence, \<^verbatim>\<open>run_eval\<close> returns a report with one entry per document, in order, holding
  the metrics of that document; when both pooled sequences (the concatenations of the
  documents' predicted and of their gold sequences, in document order) are non-empty, the
  aggregate is the result of one \<^verbatim>\<open>compute_metrics\<close> call on them with the partial
  predicate, and when one of the pools is empty the aggregate is the empty dict.
\<close>

theorem aggregate_is_pooled_recompute:
  assumes "\<forall>d \<in> set docs. scorable d"
  shows "\<exists>rep. run_eval fl docs = Inr rep \<and>
     list_all2 (\<lambda>d r. fst r = file_name d \<and>
         compute_metrics fl (JArr (doc_pred d)) (JArr (doc_gold d)) ''partial'' = Inr (snd r))
       docs (per_file rep) \<and>
     (if concat (map doc_pred docs) \<noteq> [] \<and> concat (map doc_gold docs) \<noteq> []
      then \<exists>m. compute_metrics fl (JArr (concat (map doc_pred docs)))
                  (JArr (concat (map doc_gold docs))) ''partial'' = Inr m \<and>
               aggregate rep = Some m
      else aggregate rep = None)"
proof -
  from eval_loop_scorable [OF assms, of fl "[]" "[]" "[]"] obtain rs where
    loop: "eval_loop fl ([], [], []) docs =
      Inr (rs, concat (map doc_pred docs), concat (map doc_gold docs))"
    and all: "list_all2 (\<lambda>d r. fst r = file_name d \<and>
         compute_metrics fl (JArr (doc_pred d)) (JArr (doc_gold d)) ''partial'' = Inr (snd r))
       docs rs"
    by auto
  have ep: "\<forall>r \<in> set (concat (map doc_pred docs)). is_extraction r"
    using assms by (auto elim: scorable_files)
  have eg: "\<forall>r \<in> set (concat (map doc_gold docs)). is_extraction r"
    using assms by (auto elim: scorable_files)
  obtain m where m: "compute_metrics fl (JArr (concat (map doc_pred docs)))
                  (JArr (concat (map doc_gold docs))) ''partial'' = Inr m"
    using compute_metrics_records [OF ep eg] by blast
  show ?thesis
  proof (cases "concat (map doc_pred docs) \<noteq> [] \<and> concat (map doc_gold docs) \<noteq> []")
    case True
    then have "run_eval fl docs = Inr \<lparr>per_file = rs, aggregate = Some m\<rparr>"
      by (simp add: run_eval_def loop m)
    with True all m show ?thesis by simp
  next
    case False
    then have "run_eval fl docs = Inr \<lparr>per_file = rs, aggregate = None\<rparr>"
      by (auto simp add: run_eval_def loop)
    with False all show ?thesis by auto
  qed
qed

text \<open>
  Two documents, the second with its gold list under \<^verbatim>\<open>"extractions"\<close>: the aggregate is
  the metrics of the three pooled predicted against the two pooled gold records.
\<close>

theorem aggregate_is_pooled_recompute_witness:
  "scorable \<lparr>file_name = ''note1.txt'',
             gold_file = Some (JArr [extraction_record ''symptom_sign'' ''fever'']),
             pred_file = Some (JArr [extraction_record ''symptom_sign'' ''Fever'',
                                     extraction_record ''symptom_sign'' ''cough''])\<rparr> \<and>
   scorable \<lparr>file_name = ''note2.txt'',
             gold_file = Some (JObj [(''extractions'',
                                      JArr [extraction_record ''medication'' ''Cefazolin 250mg IV''])]),
             pred_file = Some (JArr [extraction_record ''medication'' ''cefazolin''])\<rparr> \<and>
   (\<exists>rep. run_eval no_rounding
       [\<lparr>file_name = ''note1.txt'',
         gold_file = Some (JArr [extraction_record ''symptom_sign'' ''fever'']),
         pred_file = Some (JArr [extraction_record ''symptom_sign'' ''Fever'',
                                 extraction_record ''symptom_sign'' ''cough''])\<rparr>,
        \<lparr>file_name = ''note2.txt'',
         gold_file = Some (JObj [(''extractions'',
                                  JArr [extraction_record ''medication'' ''Cefazolin 250mg IV''])]),
         pred_file = Some (JArr [extraction_record ''medication'' ''cefazolin''])\<rparr>] = Inr rep \<and>
      aggregate rep =
        Some \<lparr>precision = 2 / 3, recall = 1, f1 = 4 / 5, true_positives = 2,
              predicted_count = 3, gold_count = 2\<rparr>) \<and>
   compute_metrics no_rounding
     (JArr [extraction_record ''symptom_sign'' ''Fever'', extraction_record ''symptom_sign'' ''cough'',
            extraction_record ''medication'' ''cefazolin''])
     (JArr [extraction_record ''symptom_sign'' ''fever'',
            extraction_record ''medication'' ''Cefazolin 250mg IV'']) ''partial'' =
     Inr \<lparr>precision = 2 / 3, recall = 1, f1 = 4 / 5, true_positives = 2,
          predicted_count = 3, gold_count = 2\<rparr>"
proof -
  let ?d1 = "\<lparr>file_name = ''note1.txt'',
             gold_file = Some (JArr [extraction_record ''symptom_sign'' ''fever'']),
             pred_file = Some (JArr [extraction_record ''symptom_sign'' ''Fever'',
                                     extraction_record ''symptom_sign'' ''cough''])\<rparr>"
  let ?d2 = "\<lparr>file_name = ''note2.txt'',
             gold_file = Some (JObj [(''extractions'',
                                      JArr [extraction_record ''medication'' ''Cefazolin 250mg IV''])]),
             pred_file = Some (JArr [extraction_record ''medication'' ''cefazolin''])\<rparr>"
  let ?m = "\<lparr>precision = 2 / 3, recall = 1, f1 = 4 / 5, true_positives = 2,
          predicted_count = 3, gold_count = 2\<rparr>"
  have s1: "scorable ?d1" by (simp add: scorable_def load_gold_def)
  have s2: "scorable ?d2" by (simp add: scorable_def load_gold_def)
  have pool: "compute_metrics no_rounding
     (JArr [extraction_record ''symptom_sign'' ''Fever'', extraction_record ''symptom_sign'' ''cough'',
            extraction_record ''medication'' ''cefazolin''])
     (JArr [extraction_record ''symptom_sign'' ''fever'',
            extraction_record ''medication'' ''Cefazolin 250mg IV'']) ''partial'' = Inr ?m"
    by code_simp
  have docs: "\<forall>d \<in> set [?d1, ?d2]. scorable d" using s1 s2 by simp
  from aggregate_is_pooled_recompute [OF docs, of no_rounding]
  have "\<exists>rep. run_eval no_rounding [?d1, ?d2] = Inr rep \<and> aggregate rep = Some ?m"
    by (auto simp: doc_pred_def doc_gold_def load_gold_def pool)
  with s1 s2 pool show ?thesis by blast
qed

text \<open>
  C4 as stated fails: for one document with a gold record and an empty predicted list the
  aggregate is the empty dict, not the metrics dict \<^verbatim>\<open>compute_metrics\<close> gives on the pools.
\<close>

theorem empty_pool_aggregate_counterexample:
  "scorable \<lparr>file_name = ''note1.txt'',
             gold_file = Some (JArr [extraction_record ''symptom_sign'' ''fever'']),
             pred_file = Some (JArr [])\<rparr> \<and>
   run_eval no_rounding
     [\<lparr>file_name = ''note1.txt'',
       gold_file = Some (JArr [extraction_record ''symptom_sign'' ''fever'']),
       pred_file = Some (JArr [])\<rparr>] =
     Inr \<lparr>per_file = [(''note1.txt'',
            \<lparr>precision = 0, recall = 0, f1 = 0, true_positives = 0, predicted_count = 0,
             gold_count = 1\<rparr>)],
          aggregate = None\<rparr> \<and>
   compute_metrics no_rounding (JArr []) (JArr [extraction_record ''symptom_sign'' ''fever''])
     ''partial'' =
     Inr \<lparr>precision = 0, recall = 0, f1 = 0, true_positives = 0, predicted_count = 0,
          gold_count = 1\<rparr>"
  by (simp add: scorable_def run_eval_def load_gold_def compute_metrics_def no_rounding_def
      extraction_record_def Let_def)

subsection \<open>One-to-one matching (C5)\<close>

text \<open>
  C5. Whenever \<^verbatim>\<open>compute_metrics\<close> returns, its true positives are at most the number of
  predicted and at most the number of gold records. The loop shows why: one predicted
  record leaves the state as it is or consumes exactly one gold index that was not
  consumed before, so a predicted record matches at most one gold record and a gold record
  is consumed at most once; after the whole loop the consumed indices are as many as the
  true positives, all below the number of gold records, and no more than the predicted
  records. On lists of well-shaped records the scorer returns with this bound; and for two
  predicted records that both match the single gold record and share its class, the true
  positives are 1, precision 1/2 and recall 1.
\<close>

theorem one_to_one_matching:
  "(compute_metrics fl predicted gold match_fn = Inr m \<longrightarrow>
      true_positives m \<le> min (predicted_count m) (gold_count m)) \<and>
   (match_loop match gold (n, M) [p] = Inr (n', M') \<and> py_len gold = Inr k \<longrightarrow>
      (n' = n \<and> M' = M) \<or> (\<exists>i. i < k \<and> i \<notin> M \<and> n' = n + 1 \<and> M' = insert i M)) \<and>
   (match_loop match gold (0, {}) ps = Inr (tp, matched_gold) \<and> py_len gold = Inr k \<longrightarrow>
      card matched_gold = tp \<and> matched_gold \<subseteq> {..<k} \<and> tp \<le> length ps) \<and>
   ((\<forall>p \<in> set ps. is_extraction p) \<and> (\<forall>g \<in> set gs. is_extraction g) \<longrightarrow>
      (\<exists>m. compute_metrics fl (JArr ps) (JArr gs) match_fn = Inr m \<and>
            true_positives m \<le> min (length ps) (length gs))) \<and>
   (float_rounding fl \<and> is_extraction p1 \<and> is_extraction p2 \<and> is_extraction g \<and>
    record_class p1 = record_class g \<and> record_class p2 = record_class g \<and>
    (if match_fn = ''partial'' then spec_partial else spec_exact) (record_text p1) (record_text g) \<and>
    (if match_fn = ''partial'' then spec_partial else spec_exact) (record_text p2) (record_text g) \<longrightarrow>
      (\<exists>m. compute_metrics fl (JArr [p1, p2]) (JArr [g]) match_fn = Inr m \<and>
            true_positives m = 1 \<and> precision m = 1 / 2 \<and> recall m = 1))"
proof -
  have c1: "compute_metrics fl predicted gold match_fn = Inr m \<longrightarrow>
      true_positives m \<le> min (predicted_count m) (gold_count m)"
    using true_positives_le [of fl predicted gold match_fn m] by simp
  have c2: "match_loop match gold (n, M) [p] = Inr (n', M') \<and> py_len gold = Inr k \<longrightarrow>
      (n' = n \<and> M' = M) \<or> (\<exists>i. i < k \<and> i \<notin> M \<and> n' = n + 1 \<and> M' = insert i M)"
    using match_loop_one [of match gold n M p n' M' k] by blast
  have c3: "match_loop match gold (0, {}) ps = Inr (tp, matched_gold) \<and> py_len gold = Inr k \<longrightarrow>
      card matched_gold = tp \<and> matched_gold \<subseteq> {..<k} \<and> tp \<le> length ps"
    using match_loop_inv [of match gold 0 "{}" ps tp matched_gold k] by simp
  have c4: "(\<forall>p \<in> set ps. is_extraction p) \<and> (\<forall>g \<in> set gs. is_extraction g) \<longrightarrow>
      (\<exists>m. compute_metrics fl (JArr ps) (JArr gs) match_fn = Inr m \<and>
            true_positives m \<le> min (length ps) (length gs))"
  proof
    assume "(\<forall>p \<in> set ps. is_extraction p) \<and> (\<forall>g \<in> set gs. is_extraction g)"
    then obtain m where m: "compute_metrics fl (JArr ps) (JArr gs) match_fn = Inr m"
      and c: "predicted_count m = length ps" "gold_count m = length gs"
      using compute_metrics_records [of ps gs fl match_fn] by blast
    from true_positives_le [OF m] c m
    show "\<exists>m. compute_metrics fl (JArr ps) (JArr gs) match_fn = Inr m \<and>
            true_positives m \<le> min (length ps) (length gs)"
      by simp
  qed
  have c5: "float_rounding fl \<and> is_extraction p1 \<and> is_extraction p2 \<and> is_extraction g \<and>
    record_class p1 = record_class g \<and> record_class p2 = record_class g \<and>
    (if match_fn = ''partial'' then spec_partial else spec_exact) (record_text p1) (record_text g) \<and>
    (if match_fn = ''partial'' then spec_partial else spec_exact) (record_text p2) (record_text g) \<longrightarrow>
      (\<exists>m. compute_metrics fl (JArr [p1, p2]) (JArr [g]) match_fn = Inr m \<and>
            true_positives m = 1 \<and> precision m = 1 / 2 \<and> recall m = 1)"
  proof
    let ?P = "if match_fn = ''partial'' then spec_partial else spec_exact"
    assume h: "float_rounding fl \<and> is_extraction p1 \<and> is_extraction p2 \<and> is_extraction g \<and>
      record_class p1 = record_class g \<and> record_class p2 = record_class g \<and>
      ?P (record_text p1) (record_text g) \<and> ?P (record_text p2) (record_text g)"
    have fl: "fl 1 = 1" "fl (1 / 2) = 1 / 2" using h by (simp_all add: float_rounding_def)
    have "match_loop (if match_fn = ''partial'' then partial_match else exact_match) (JArr [g])
            (0, {}) [p1, p2] =
          Inr (fold (spec_step ?P (map as_extraction [g])) (map as_extraction [p1, p2]) (0, {}))"
      using h by (intro match_loop_refines [OF refines_selected]) simp_all
    also have "fold (spec_step ?P (map as_extraction [g])) (map as_extraction [p1, p2]) (0, {}) =
        (1, {0})"
      using h by (simp add: spec_step_def spec_first_match_def as_extraction_def)
    finally show "\<exists>m. compute_metrics fl (JArr [p1, p2]) (JArr [g]) match_fn = Inr m \<and>
            true_positives m = 1 \<and> precision m = 1 / 2 \<and> recall m = 1"
      using compute_metrics_lists [of match_fn "[g]" "[p1, p2]" 1 "{0}" fl]
      by (simp add: fl)
  qed
  show ?thesis
    using c1 c2 c3 c4 c5 by (intro conjI)
qed

text \<open>
  The records of the specification: gold one "fever", predicted two "fever", all of class
  "symptom_sign".
\<close>

theorem one_to_one_matching_witness:
  "float_rounding no_rounding \<and>
   spec_partial ''fever'' ''fever'' \<and>
   (\<exists>m. compute_metrics no_rounding
           (JArr [extraction_record ''symptom_sign'' ''fever'',
                  extraction_record ''symptom_sign'' ''fever''])
           (JArr [extraction_record ''symptom_sign'' ''fever'']) ''partial'' = Inr m \<and>
         true_positives m = 1 \<and> precision m = 1 / 2 \<and> recall m = 1) \<and>
   match_loop partial_match (JArr [extraction_record ''symptom_sign'' ''fever'']) (0, {})
     [extraction_record ''symptom_sign'' ''fever'', extraction_record ''symptom_sign'' ''fever''] =
     Inr (1, {0}) \<and>
   card {0::nat} = 1 \<and> {0::nat} \<subseteq> {..<1} \<and> (1::nat) \<le> length [0::nat, 1]"
proof -
  let ?r = "extraction_record ''symptom_sign'' ''fever''"
  have fl: "float_rounding no_rounding"
    by (simp add: float_rounding_def no_rounding_def)
  have sp: "spec_partial ''fever'' ''fever''" by code_simp
  have pm: "partial_match (JStr ''fever'') (JStr ''fever'') = Inr True" by code_simp
  have loop: "match_loop partial_match (JArr [?r]) (0, {}) [?r, ?r] = Inr (1, {0})"
    by (simp add: extraction_record_def pm)
  have len: "py_len (JArr [?r]) = Inr 1" by simp
  note inst = one_to_one_matching [where fl = no_rounding and match_fn = "''partial''"
      and match = partial_match and gold = "JArr [?r]" and ps = "[?r, ?r]" and tp = 1
      and matched_gold = "{0}" and k = 1 and ?p1.0 = "?r" and ?p2.0 = "?r" and g = "?r"]
  have ex: "\<exists>m. compute_metrics no_rounding (JArr [?r, ?r]) (JArr [?r]) ''partial'' = Inr m \<and>
         true_positives m = 1 \<and> precision m = 1 / 2 \<and> recall m = 1"
    using inst fl sp by simp
  have inv: "card {0::nat} = 1 \<and> {0::nat} \<subseteq> {..<1} \<and> (1::nat) \<le> length [?r, ?r]"
    using inst loop len by blast
  from fl sp ex loop inv show ?thesis by simp
qed

subsection \<open>The partial predicate (C6)\<close>

text \<open>
  C6. On two strings the partial predicate returns true exactly when both normalise to a
  non-empty string and one normalised string occurs inside the other; so the predicted
  text "cefazolin" matches the gold text "Cefazolin 250mg IV" of a record of the same class,
  and the scorer counts one true positive.
\<close>

theorem partial_match_iff_containment:
  "partial_match (JStr a) (JStr b) =
     Inr (normalize_str a \<noteq> [] \<and> normalize_str b \<noteq> [] \<and>
          ((\<exists>u v. normalize_str b = u @ normalize_str a @ v) \<or>
           (\<exists>u v. normalize_str a = u @ normalize_str b @ v))) \<and>
   (\<exists>m. compute_metrics fl (JArr [extraction_record c ''cefazolin''])
           (JArr [extraction_record c ''Cefazolin 250mg IV'']) ''partial'' = Inr m \<and>
         true_positives m = 1)"
proof
  show "partial_match (JStr a) (JStr b) =
     Inr (normalize_str a \<noteq> [] \<and> normalize_str b \<noteq> [] \<and>
          ((\<exists>u v. normalize_str b = u @ normalize_str a @ v) \<or>
           (\<exists>u v. normalize_str a = u @ normalize_str b @ v)))"
    by (simp add: partial_match_str spec_partial_def sublist_def)
  show "\<exists>m. compute_metrics fl (JArr [extraction_record c ''cefazolin''])
           (JArr [extraction_record c ''Cefazolin 250mg IV'']) ''partial'' = Inr m \<and>
         true_positives m = 1"
    by (simp add: compute_metrics_def Let_def extraction_record_def partial_cefazolin)
qed

text \<open>Containment after normalisation at concrete texts, and a pair that does not match.\<close>

theorem partial_match_iff_containment_witness:
  "partial_match (JStr ''Fever '') (JStr ''low-grade  fever'') = Inr True \<and>
   partial_match (JStr ''fever'') (JStr ''cough'') = Inr False \<and>
   (\<exists>m. compute_metrics no_rounding (JArr [extraction_record ''medication'' ''cefazolin''])
           (JArr [extraction_record ''medication'' ''Cefazolin 250mg IV'']) ''partial'' = Inr m \<and>
         true_positives m = 1)"
proof -
  have n1: "normalize_str ''Fever '' = ''fever''" by code_simp
  have n2: "normalize_str ''low-grade  fever'' = ''low-grade fever''" by code_simp
  have n3: "normalize_str ''fever'' = ''fever''" by code_simp
  have n4: "normalize_str ''cough'' = ''cough''" by code_simp
  have s1: "sublist ''fever'' ''low-grade fever''" by code_simp
  have s2: "\<not> sublist ''fever'' ''cough''" "\<not> sublist ''cough'' ''fever''" by code_simp+
  show ?thesis
    using partial_match_iff_containment [of "''Fever ''" "''low-grade  fever''" no_rounding "''medication''"]
      partial_match_iff_containment [of "''fever''" "''cough''" no_rounding "''medication''"] s1 s2
    by (simp add: n1 n2 n3 n4 sublist_def)
qed

subsection \<open>Scoring a sequence against itself (C7)\<close>

text \<open>
  C7. For every sequence that contains well-shaped records with non-empty texts, no two
  records having both the same class and the same text, scoring the sequence against
  itself with the exact predicate gives precision, recall and F1 equal to 1. The sequence
  contains records, so it is not empty; the score of the empty sequence against itself is
  fixed separately, at all zeros. (The proof uses neither condition on the texts:
  \<open>exact_self_score\<close>.)
\<close>

theorem self_score_exact_is_one:
  assumes "float_rounding fl" and "X \<noteq> []" and "\<forall>r \<in> set X. is_extraction r"
    and "\<forall>r \<in> set X. record_text r \<noteq> []"
    and "distinct (map as_extraction X)"
  shows "compute_metrics fl (JArr X) (JArr X) ''exact'' =
     Inr \<lparr>precision = 1, recall = 1, f1 = 1, true_positives = length X,
          predicted_count = length X, gold_count = length X\<rparr>"
  using assms(1-3) by (rule exact_self_score)

text \<open>Three records, two of them with the same text in different classes.\<close>

theorem self_score_exact_is_one_witness:
  "float_rounding no_rounding \<and>
   list_all is_extraction
     [extraction_record ''medication'' ''Cefazolin'', extraction_record ''dosage'' ''Cefazolin'',
      extraction_record ''medication'' ''Heparin''] \<and>
   list_all (\<lambda>r. record_text r \<noteq> [])
     [extraction_record ''medication'' ''Cefazolin'', extraction_record ''dosage'' ''Cefazolin'',
      extraction_record ''medication'' ''Heparin''] \<and>
   distinct (map as_extraction
     [extraction_record ''medication'' ''Cefazolin'', extraction_record ''dosage'' ''Cefazolin'',
      extraction_record ''medication'' ''Heparin'']) \<and>
   compute_metrics no_rounding
     (JArr [extraction_record ''medication'' ''Cefazolin'', extraction_record ''dosage'' ''Cefazolin'',
            extraction_record ''medication'' ''Heparin''])
     (JArr [extraction_record ''medication'' ''Cefazolin'', extraction_record ''dosage'' ''Cefazolin'',
            extraction_record ''medication'' ''Heparin'']) ''exact'' =
   Inr \<lparr>precision = 1, recall = 1, f1 = 1, true_positives = 3, predicted_count = 3,
        gold_count = 3\<rparr>"
proof -
  let ?X = "[extraction_record ''medication'' ''Cefazolin'', extraction_record ''dosage'' ''Cefazolin'',
      extraction_record ''medication'' ''Heparin'']"
  have fl: "float_rounding no_rounding"
    by (simp add: float_rounding_def no_rounding_def)
  have ne: "?X \<noteq> []" by simp
  have X: "\<forall>r \<in> set ?X. is_extraction r" by simp
  have t: "\<forall>r \<in> set ?X. record_text r \<noteq> []" by simp
  have d: "distinct (map as_extraction ?X)" by (simp add: as_extraction_def)
  from self_score_exact_is_one [OF fl ne X t d] fl X t d show ?thesis
    by (simp add: list_all_iff)
qed

subsection \<open>Metric values (C8)\<close>

text \<open>
  C8. Whenever \<^verbatim>\<open>compute_metrics\<close> returns, on whatever input, empty lists included,
  precision, recall and F1 lie between 0 and 1; on lists of well-shaped records it does
  return. This holds for every rounding \<open>fl\<close> that is a \<open>float_rounding\<close>, not
  only for exact arithmetic.
\<close>

theorem metrics_in_unit_interval:
  "float_rounding fl \<Longrightarrow>
   (compute_metrics fl predicted gold match_fn = Inr m \<longrightarrow>
      0 \<le> precision m \<and> precision m \<le> 1 \<and> 0 \<le> recall m \<and> recall m \<le> 1 \<and>
      0 \<le> f1 m \<and> f1 m \<le> 1) \<and>
   ((\<forall>p \<in> set ps. is_extraction p) \<and> (\<forall>g \<in> set gs. is_extraction g) \<longrightarrow>
      (\<exists>m. compute_metrics fl (JArr ps) (JArr gs) match_fn = Inr m \<and>
            0 \<le> precision m \<and> precision m \<le> 1 \<and> 0 \<le> recall m \<and> recall m \<le> 1 \<and>
            0 \<le> f1 m \<and> f1 m \<le> 1))"
proof -
  assume fl: "float_rounding fl"
  have c1: "compute_metrics fl predicted gold match_fn = Inr m \<longrightarrow>
      0 \<le> precision m \<and> precision m \<le> 1 \<and> 0 \<le> recall m \<and> recall m \<le> 1 \<and>
      0 \<le> f1 m \<and> f1 m \<le> 1"
    using metrics_unit_interval [OF fl] by blast
  have c2: "(\<forall>p \<in> set ps. is_extraction p) \<and> (\<forall>g \<in> set gs. is_extraction g) \<longrightarrow>
      (\<exists>m. compute_metrics fl (JArr ps) (JArr gs) match_fn = Inr m \<and>
            0 \<le> precision m \<and> precision m \<le> 1 \<and> 0 \<le> recall m \<and> recall m \<le> 1 \<and>
            0 \<le> f1 m \<and> f1 m \<le> 1)"
  proof
    assume "(\<forall>p \<in> set ps. is_extraction p) \<and> (\<forall>g \<in> set gs. is_extraction g)"
    then obtain m where m: "compute_metrics fl (JArr ps) (JArr gs) match_fn = Inr m"
      using compute_metrics_records [of ps gs fl match_fn] by blast
    from metrics_unit_interval [OF fl m] m
    show "\<exists>m. compute_metrics fl (JArr ps) (JArr gs) match_fn = Inr m \<and>
            0 \<le> precision m \<and> precision m \<le> 1 \<and> 0 \<le> recall m \<and> recall m \<le> 1 \<and>
            0 \<le> f1 m \<and> f1 m \<le> 1"
      by blast
  qed
  show ?thesis using c1 c2 by (intro conjI)
qed

text \<open>Two predicted records against one gold record, exact predicate.\<close>

theorem metrics_in_unit_interval_witness:
  "float_rounding round_to_grid \<and>
   list_all is_extraction
     [extraction_record ''symptom_sign'' ''fever'', extraction_record ''medication'' ''Cefazolin'',
      extraction_record ''medication'' ''Heparin''] \<and>
   list_all is_extraction [extraction_record ''symptom_sign'' ''Fever''] \<and>
   (\<exists>m. compute_metrics round_to_grid
           (JArr [extraction_record ''symptom_sign'' ''fever'',
                  extraction_record ''medication'' ''Cefazolin'',
                  extraction_record ''medication'' ''Heparin''])
           (JArr [extraction_record ''symptom_sign'' ''Fever'']) ''exact'' = Inr m \<and>
         precision m = 341 / 1024 \<and> recall m = 1 \<and> f1 m = 1 / 2 \<and>
         0 \<le> precision m \<and> precision m \<le> 1 \<and> 0 \<le> recall m \<and> recall m \<le> 1 \<and>
         0 \<le> f1 m \<and> f1 m \<le> 1)"
proof -
  let ?ps = "[extraction_record ''symptom_sign'' ''fever'',
              extraction_record ''medication'' ''Cefazolin'',
              extraction_record ''medication'' ''Heparin'']"
  let ?gs = "[extraction_record ''symptom_sign'' ''Fever'']"
  let ?m = "\<lparr>precision = 341 / 1024, recall = 1, f1 = 1 / 2, true_positives = 1,
             predicted_count = 3, gold_count = 1\<rparr>"
  have ps: "list_all is_extraction ?ps" and gs: "list_all is_extraction ?gs"
    by simp_all
  have run: "compute_metrics round_to_grid (JArr ?ps) (JArr ?gs) ''exact'' = Inr ?m"
    by code_simp
  from metrics_in_unit_interval [OF float_rounding_grid,
      where predicted = "JArr ?ps" and gold = "JArr ?gs" and match_fn = "''exact''" and m = ?m]
    run
  have "0 \<le> precision ?m \<and> precision ?m \<le> 1 \<and> 0 \<le> recall ?m \<and> recall ?m \<le> 1 \<and>
        0 \<le> f1 ?m \<and> f1 ?m \<le> 1"
    by blast
  with run float_rounding_grid ps gs show ?thesis by simp
qed

subsection \<open>Loading gold files (C9)\<close>

text \<open>
  C9. \<^verbatim>\<open>load_gold\<close> returns a parsed value that is a list as it is, the value of the field
  \<^verbatim>\<open>"extractions"\<close> of a dict that has this field, whatever that value is, and the empty
  list for every other value; its result is a value in all three cases, no exception.
\<close>

theorem load_gold_shapes:
  "load_gold (JArr xs) = JArr xs \<and>
   (map_of kvs ''extractions'' = Some v \<longrightarrow> load_gold (JObj kvs) = v) \<and>
   ((\<forall>ys. data \<noteq> JArr ys) \<and>
    (\<forall>kvs'. data = JObj kvs' \<longrightarrow> map_of kvs' ''extractions'' = None)
      \<longrightarrow> load_gold data = JArr [])"
  by (cases data) (simp_all add: load_gold_def)

text \<open>The three shapes at concrete files.\<close>

theorem load_gold_shapes_witness:
  "load_gold (JArr [extraction_record ''medication'' ''Cefazolin'']) =
     JArr [extraction_record ''medication'' ''Cefazolin''] \<and>
   load_gold (JObj [(''source'', JStr ''note 1''), (''extractions'', JInt 5)]) = JInt 5 \<and>
   load_gold (JObj [(''items'', JArr [extraction_record ''medication'' ''Cefazolin''])]) = JArr [] \<and>
   load_gold (JStr ''medication'') = JArr [] \<and>
   load_gold JNull = JArr []"
  using
    load_gold_shapes [of "[extraction_record ''medication'' ''Cefazolin'']" "[(''source'', JStr ''note 1''), (''extractions'', JInt 5)]" "JInt 5"
       "JObj [(''items'', JArr [extraction_record ''medication'' ''Cefazolin''])]"]
    load_gold_shapes [of "[]" "[]" JNull "JStr ''medication''"]
    load_gold_shapes [of "[]" "[]" JNull JNull]
  by simp

subsection \<open>Selecting the predicate (C10)\<close>

text \<open>
  C10. Every \<^verbatim>\<open>match_fn\<close> other than \<^verbatim>\<open>"partial"\<close> gives the result of \<^verbatim>\<open>"exact"\<close> on
  every input; on lists of well-shaped records that result is a metrics dict (the name is
  not rejected) whose true positives are those of the greedy match under the exact
  predicate; and it is not the result of the partial default, as the records with the
  texts "cefazolin" and "Cefazolin 250mg IV" show.
\<close>

theorem unknown_match_fn_is_exact:
  "match_fn \<noteq> ''partial'' \<Longrightarrow>
   compute_metrics fl predicted gold match_fn = compute_metrics fl predicted gold ''exact'' \<and>
   ((\<forall>p \<in> set ps. is_extraction p) \<and> (\<forall>g \<in> set gs. is_extraction g) \<longrightarrow>
      (\<exists>m. compute_metrics fl (JArr ps) (JArr gs) match_fn = Inr m \<and>
            true_positives m =
              fst (spec_greedy spec_exact (map as_extraction ps) (map as_extraction gs)))) \<and>
   compute_metrics fl (JArr [extraction_record c ''cefazolin''])
       (JArr [extraction_record c ''Cefazolin 250mg IV'']) match_fn \<noteq>
     compute_metrics fl (JArr [extraction_record c ''cefazolin''])
       (JArr [extraction_record c ''Cefazolin 250mg IV'']) ''partial''"
proof (intro conjI impI)
  assume fn: "match_fn \<noteq> ''partial''"
  show "compute_metrics fl predicted gold match_fn = compute_metrics fl predicted gold ''exact''"
    using fn by (simp add: compute_metrics_def)
  show "\<exists>m. compute_metrics fl (JArr ps) (JArr gs) match_fn = Inr m \<and>
            true_positives m =
              fst (spec_greedy spec_exact (map as_extraction ps) (map as_extraction gs))"
    if "(\<forall>p \<in> set ps. is_extraction p) \<and> (\<forall>g \<in> set gs. is_extraction g)"
    using compute_metrics_records [of ps gs fl match_fn] that fn by auto
  show "compute_metrics fl (JArr [extraction_record c ''cefazolin''])
       (JArr [extraction_record c ''Cefazolin 250mg IV'']) match_fn \<noteq>
     compute_metrics fl (JArr [extraction_record c ''cefazolin''])
       (JArr [extraction_record c ''Cefazolin 250mg IV'']) ''partial''"
    using fn by (simp add: compute_metrics_def Let_def extraction_record_def partial_cefazolin
        exact_cefazolin)
qed

text \<open>The names \<^verbatim>\<open>"fuzzy"\<close> and \<^verbatim>\<open>""\<close>.\<close>

theorem unknown_match_fn_is_exact_witness:
  "''fuzzy'' \<noteq> ''partial'' \<and> [] \<noteq> ''partial'' \<and>
   compute_metrics no_rounding (JArr [extraction_record ''medication'' ''cefazolin''])
       (JArr [extraction_record ''medication'' ''Cefazolin 250mg IV'']) ''fuzzy'' =
     compute_metrics no_rounding (JArr [extraction_record ''medication'' ''cefazolin''])
       (JArr [extraction_record ''medication'' ''Cefazolin 250mg IV'']) ''exact'' \<and>
   compute_metrics no_rounding (JArr [extraction_record ''medication'' ''cefazolin''])
       (JArr [extraction_record ''medication'' ''Cefazolin 250mg IV'']) [] =
     compute_metrics no_rounding (JArr [extraction_record ''medication'' ''cefazolin''])
       (JArr [extraction_record ''medication'' ''Cefazolin 250mg IV'']) ''exact'' \<and>
   compute_metrics no_rounding (JArr [extraction_record ''medication'' ''cefazolin''])
       (JArr [extraction_record ''medication'' ''Cefazolin 250mg IV'']) ''fuzzy'' \<noteq>
     compute_metrics no_rounding (JArr [extraction_record ''medication'' ''cefazolin''])
       (JArr [extraction_record ''medication'' ''Cefazolin 250mg IV'']) ''partial''"
proof -
  have h1: "''fuzzy'' \<noteq> ''partial''" by simp
  have h2: "[] \<noteq> ''partial''" by simp
  show ?thesis
    using unknown_match_fn_is_exact [OF h1, of no_rounding
        "JArr [extraction_record ''medication'' ''cefazolin'']"
        "JArr [extraction_record ''medication'' ''Cefazolin 250mg IV'']" "[]" "[]" "''medication''"]
      unknown_match_fn_is_exact [OF h2, of no_rounding
        "JArr [extraction_record ''medication'' ''cefazolin'']"
        "JArr [extraction_record ''medication'' ''Cefazolin 250mg IV'']" "[]" "[]" "''medication''"]
      h1 h2
    by blast
qed

end
